theory Spec2Isabelle
  imports Main
begin

section \<open>Python values shared by the three modules\<close>

text \<open>
  Exceptions are values. Every constructor below is an instance of Python's
  \<^verbatim>\<open>Exception\<close>, so an \<^verbatim>\<open>except Exception\<close> clause catches each of them.
  \<open>Exception cls txt\<close> stands for an exception raised by a collaborator (the database
  driver, the operating system, an entity's \<^verbatim>\<open>__str__\<close>): \<open>cls\<close> is its class
  name and \<open>txt\<close> what \<^verbatim>\<open>str(exc)\<close> gives, the internal diagnostic text.
  A collaborator reports such an error as the pair \<open>(cls, txt)\<close>; it never raises
  the \<^verbatim>\<open>HTTPException\<close> of the web framework.
  Interrupts and the cancellation of a coroutine (outside \<^verbatim>\<open>Exception\<close>) are not modelled.
\<close>

datatype py_exception =
    HTTPException nat string
  | ValueError string
  | TypeError string
  | Exception string string

type_synonym foreign_error = "string \<times> string"

definition raised :: "foreign_error \<Rightarrow> py_exception" where
  "raised e = Exception (fst e) (snd e)"

definition exc_str :: "py_exception \<Rightarrow> string" where
  "exc_str exc =
     (case exc of
        HTTPException sc dt \<Rightarrow> dt
      | ValueError txt \<Rightarrow> txt
      | TypeError txt \<Rightarrow> txt
      | Exception cls txt \<Rightarrow> txt)"

text \<open>
  \<^verbatim>\<open>logger = logging.getLogger(__name__)\<close>: a log call appends one record. A record
  keeps the format string and its arguments apart, as \<^verbatim>\<open>logging\<close> does (the
  arguments are merged lazily by a handler, which swallows its own errors).
\<close>

datatype log_level = DEBUG | WARNING | ERROR

datatype log_arg = IntArg int | StrArg string | ExcArg py_exception

record log_record =
  level :: log_level
  msg :: string
  args :: "log_arg list"

text \<open>
  The state a function runs in: the external resource it acts on (a database session,
  a filesystem) and the log written so far.
\<close>

record 'r world =
  resource :: 'r
  logged :: "log_record list"

definition logger_log :: "log_level \<Rightarrow> string \<Rightarrow> log_arg list \<Rightarrow> 'r world \<Rightarrow> 'r world" where
  "logger_log lvl m as w = w\<lparr>logged := logged w @ [\<lparr>level = lvl, msg = m, args = as\<rparr>]\<rparr>"

section \<open>app/database/session.py\<close>

subsection \<open>Module initialisation: DATABASE\_URL\<close>

text \<open>
  \<^verbatim>\<open>os.getenv(k)\<close> is \<open>env k\<close>: \<open>None\<close> when the variable is unset. The
  environment is the one \<^verbatim>\<open>load_dotenv()\<close> has left.
  \<^verbatim>\<open>all([...])\<close> tests truthiness: \<open>None\<close> and the empty string are both false.
\<close>

type_synonym environ = "string \<rightharpoonup> string"

definition truthy :: "string option \<Rightarrow> bool" where
  "truthy v = (case v of None \<Rightarrow> False | Some s \<Rightarrow> s \<noteq> [])"

definition format_database_url :: "string \<Rightarrow> string \<Rightarrow> string \<Rightarrow> string \<Rightarrow> string \<Rightarrow> string" where
  "format_database_url DB_USER DB_PASSWORD DB_HOST DB_PORT DB_NAME =
     ''postgresql+asyncpg://'' @ DB_USER @ '':'' @ DB_PASSWORD @ ''@'' @ DB_HOST @ '':'' @ DB_PORT
       @ ''/'' @ DB_NAME"

definition DATABASE_URL :: "environ \<Rightarrow> py_exception + string" where
  "DATABASE_URL env =
     (case env ''DATABASE_URL'' of
        Some url \<Rightarrow> Inr url
      | None \<Rightarrow>
          (let DB_USER = env ''DATABASE_USER'';
               DB_PASSWORD = env ''DATABASE_PASSWORD'';
               DB_HOST = env ''DATABASE_HOST'';
               DB_PORT = env ''DATABASE_PORT'';
               DB_NAME = env ''DATABASE_NAME''
           in if \<not> list_all truthy [DB_USER, DB_PASSWORD, DB_HOST, DB_PORT, DB_NAME]
              then Inl (ValueError ''Missing database connection parameters in environment variables'')
              else Inr (format_database_url (the DB_USER) (the DB_PASSWORD) (the DB_HOST)
                         (the DB_PORT) (the DB_NAME))))"

text \<open>
  The rest of the module body: the engine and the session maker are created from the
  resolved URL. When the URL cannot be resolved the import of the module fails with
  the \<^verbatim>\<open>ValueError\<close> and neither object exists.

  \<^verbatim>\<open>create_async_engine\<close> parses the URL and loads the driver it names, and raises
  when it cannot (an \<^verbatim>\<open>ArgumentError\<close> for a string that is no URL, a
  \<^verbatim>\<open>ValueError\<close> for a port that is no number). That parser belongs to SQLAlchemy,
  not to this repository, so it is a parameter: \<open>url_error u\<close> is the exception
  raised for the string \<open>u\<close>, or \<open>None\<close> when \<open>u\<close> is accepted. An exception
  from there leaves the import as it is.
\<close>

record engine =
  url :: string
  echo :: bool
  future :: bool

record sessionmaker =
  bind :: engine
  expire_on_commit :: bool

record session_module =
  module_engine :: engine
  async_session :: sessionmaker

definition create_async_engine ::
  "(string \<Rightarrow> foreign_error option) \<Rightarrow> string \<Rightarrow> bool \<Rightarrow> bool \<Rightarrow> foreign_error + engine" where
  "create_async_engine url_error u e f =
     (case url_error u of
        Some exc \<Rightarrow> Inl exc
      | None \<Rightarrow> Inr \<lparr>url = u, echo = e, future = f\<rparr>)"

definition async_sessionmaker :: "engine \<Rightarrow> bool \<Rightarrow> sessionmaker" where
  "async_sessionmaker b x = \<lparr>bind = b, expire_on_commit = x\<rparr>"

definition import_session_module ::
  "(string \<Rightarrow> foreign_error option) \<Rightarrow> environ \<Rightarrow> py_exception + session_module" where
  "import_session_module url_error env =
     (case DATABASE_URL env of
        Inl exc \<Rightarrow> Inl exc
      | Inr u \<Rightarrow>
          (case create_async_engine url_error u True True of
             Inl exc \<Rightarrow> Inl (raised exc)
           | Inr eng \<Rightarrow> Inr \<lparr>module_engine = eng, async_session = async_sessionmaker eng False\<rparr>))"

text \<open>A parser that rejects exactly the strings of \<open>bad\<close>, to run the import on.\<close>

definition rejecting :: "string list \<Rightarrow> string \<Rightarrow> foreign_error option" where
  "rejecting bad u =
     (if u \<in> set bad then Some (''ArgumentError'', ''Could not parse SQLAlchemy URL from given URL string'')
      else None)"

subsection \<open>commit\_and\_refresh\<close>

text \<open>
  An \<^verbatim>\<open>AsyncSession\<close> is an object: its three methods act on the session and
  database state \<open>'db\<close>. Each returns the state it leaves and either raises or
  returns; \<^verbatim>\<open>refresh\<close> returns the entity as reloaded.
  \<^verbatim>\<open>str(entity)\<close> runs the entity's own \<^verbatim>\<open>__str__\<close>, which may raise too.
\<close>

record ('db, 'e) AsyncSession =
  commit :: "'db \<Rightarrow> 'db \<times> foreign_error option"
  refresh :: "'e \<Rightarrow> 'db \<Rightarrow> 'db \<times> (foreign_error + 'e)"
  rollback :: "'db \<Rightarrow> 'db \<times> foreign_error option"

definition HTTP_400_BAD_REQUEST :: nat where
  "HTTP_400_BAD_REQUEST = 400"

text \<open>The \<^verbatim>\<open>except Exception as exc\<close> block.\<close>

definition commit_and_refresh_except ::
  "('db, 'e) AsyncSession \<Rightarrow> int \<Rightarrow> py_exception \<Rightarrow> 'db world \<Rightarrow> 'db world \<times> (py_exception + 'e)" where
  "commit_and_refresh_except db entity_id exc w =
     (let w1 = logger_log ERROR ''Error updating entity (id=%s): %s'' [IntArg entity_id, ExcArg exc] w
      in case rollback db (resource w1) of
           (d, Some exc') \<Rightarrow> (w1\<lparr>resource := d\<rparr>, Inl (raised exc'))
         | (d, None) \<Rightarrow>
             (w1\<lparr>resource := d\<rparr>, Inl (HTTPException HTTP_400_BAD_REQUEST ''Error updating entity'')))"

definition commit_and_refresh ::
  "('db, 'e) AsyncSession \<Rightarrow> ('e \<Rightarrow> foreign_error + string) \<Rightarrow> 'e \<Rightarrow> int \<Rightarrow> 'db world
     \<Rightarrow> 'db world \<times> (py_exception + 'e)" where
  "commit_and_refresh db py_str entity entity_id w =
     (let w1 = logger_log DEBUG ''Committing updated entity (id=%s) to the database'' [IntArg entity_id] w
      in case commit db (resource w1) of
           (d1, Some exc) \<Rightarrow> commit_and_refresh_except db entity_id (raised exc) (w1\<lparr>resource := d1\<rparr>)
         | (d1, None) \<Rightarrow>
             (case refresh db entity d1 of
                (d2, Inl exc) \<Rightarrow> commit_and_refresh_except db entity_id (raised exc) (w1\<lparr>resource := d2\<rparr>)
              | (d2, Inr entity') \<Rightarrow>
                  (case py_str entity' of
                     Inl exc \<Rightarrow> commit_and_refresh_except db entity_id (raised exc) (w1\<lparr>resource := d2\<rparr>)
                   | Inr s \<Rightarrow>
                       (logger_log DEBUG ''Updated entity: %s'' [StrArg s] (w1\<lparr>resource := d2\<rparr>),
                        Inr entity'))))"

text \<open>
  A small in-memory session on which the function can be run: \<open>pending\<close> holds the
  uncommitted changes, \<open>rows\<close> the committed table (newest first), and
  \<open>reachable\<close> tells whether the server answers. An entity is a pair of its
  primary key and its value.
\<close>

record memory_db =
  rows :: "(int \<times> string) list"
  pending :: "(int \<times> string) list"
  reachable :: bool

definition memory_session :: "(memory_db, int \<times> string) AsyncSession" where
  "memory_session =
     \<lparr>commit = (\<lambda>d. if reachable d then (d\<lparr>rows := pending d @ rows d, pending := []\<rparr>, None)
                     else (d, Some (''OperationalError'', ''connection to db.internal:5432 refused''))),
      refresh = (\<lambda>e d. case map_of (rows d) (fst e) of
                           Some v \<Rightarrow> (d, Inr (fst e, v))
                         | None \<Rightarrow> (d, Inl (''InvalidRequestError'', ''Could not refresh instance''))),
      rollback = (\<lambda>d. (d\<lparr>pending := []\<rparr>, None))\<rparr>"

text \<open>The same session on a connection so broken that the rollback fails as well.\<close>

definition broken_session :: "(memory_db, int \<times> string) AsyncSession" where
  "broken_session =
     memory_session\<lparr>rollback := (\<lambda>d. (d, Some (''InterfaceError'', ''connection is closed'')))\<rparr>"

definition entity_str :: "int \<times> string \<Rightarrow> foreign_error + string" where
  "entity_str e = Inr (snd e)"

text \<open>An entity class whose \<^verbatim>\<open>__str__\<close> raises.\<close>

definition raising_str :: "int \<times> string \<Rightarrow> foreign_error + string" where
  "raising_str e = Inl (''MissingGreenlet'', ''greenlet_spawn has not been called'')"

text \<open>
  Commit followed by refresh, as the \<^verbatim>\<open>try\<close> block runs them: the state they
  leave, and the exception of the first one that raises or the refreshed entity.
\<close>

definition commit_then_refresh :: "('db, 'e) AsyncSession \<Rightarrow> 'e \<Rightarrow> 'db \<Rightarrow> 'db \<times> (foreign_error + 'e)" where
  "commit_then_refresh db entity d =
     (case commit db d of
        (d1, Some exc) \<Rightarrow> (d1, Inl exc)
      | (d1, None) \<Rightarrow> refresh db entity d1)"

subsection \<open>get\_session and get\_session\_for\_queue\<close>

text \<open>
  Every session ever created is kept in a registry, in creation order; a session is
  known by its index there. \<^verbatim>\<open>async_session()\<close> appends a new open session bound
  to the maker's engine; leaving \<^verbatim>\<open>async with\<close> closes it.
\<close>

record session_handle =
  session_bind :: engine
  session_closed :: bool

definition open_session :: "sessionmaker \<Rightarrow> session_handle list \<Rightarrow> session_handle list \<times> nat" where
  "open_session maker reg = (reg @ [\<lparr>session_bind = bind maker, session_closed = False\<rparr>], length reg)"

definition close_session :: "nat \<Rightarrow> session_handle list \<Rightarrow> session_handle list" where
  "close_session i reg = (if i < length reg then reg[i := (reg ! i)\<lparr>session_closed := True\<rparr>] else reg)"

text \<open>
  Both providers are generators with one \<^verbatim>\<open>yield\<close> inside an \<^verbatim>\<open>async with\<close>.
  Such a generator is its code up to the \<^verbatim>\<open>yield\<close> (which hands out the session)
  and its code from the \<^verbatim>\<open>yield\<close> on, entered by one of the three ways a consumer
  can resume it: with a value, by throwing an exception into it, or by closing it.
  In all three the \<^verbatim>\<open>async with\<close> block is left, so its exit runs.
\<close>

datatype resume = Send | Throw py_exception | Close

record generator =
  until_yield :: "session_handle list world \<Rightarrow> session_handle list world \<times> nat"
  after_yield :: "nat \<Rightarrow> resume \<Rightarrow> session_handle list world \<Rightarrow> session_handle list world \<times> py_exception option"

definition get_session :: "sessionmaker \<Rightarrow> generator" where
  "get_session maker =
     \<lparr>until_yield = (\<lambda>w.
        (let w1 = logger_log DEBUG ''Creating new database session'' [] w;
             (reg, session) = open_session maker (resource w1);
             w2 = logger_log DEBUG ''Yielding database session'' [] (w1\<lparr>resource := reg\<rparr>)
         in (w2, session))),
      after_yield = (\<lambda>session r w.
        (w\<lparr>resource := close_session session (resource w)\<rparr>,
         case r of Send \<Rightarrow> None | Throw exc \<Rightarrow> Some exc | Close \<Rightarrow> None))\<rparr>"

definition get_session_for_queue :: "sessionmaker \<Rightarrow> generator" where
  "get_session_for_queue maker =
     \<lparr>until_yield = (\<lambda>w.
        (let w1 = logger_log DEBUG ''Creating new database session'' [] w;
             (reg, session) = open_session maker (resource w1);
             w2 = logger_log DEBUG ''Yielding database session'' [] (w1\<lparr>resource := reg\<rparr>)
         in (w2, session))),
      after_yield = (\<lambda>session r w.
        (w\<lparr>resource := close_session session (resource w)\<rparr>,
         case r of Send \<Rightarrow> None | Throw exc \<Rightarrow> Some exc | Close \<Rightarrow> None))\<rparr>"

text \<open>
  A scope around a provider, as \<^verbatim>\<open>async with get_session_for_queue() as session\<close>
  and the framework's handling of a \<^verbatim>\<open>Depends(get_session)\<close> both run it: the
  generator is advanced to its \<^verbatim>\<open>yield\<close>, the body runs with the session, and the
  generator is resumed with a value when the body returned and with the body's
  exception when it raised. The scope returns the body's value, or \<open>None\<close> when the
  generator swallowed the body's exception.
\<close>

definition scoped :: "generator \<Rightarrow> (nat \<Rightarrow> py_exception + 'a) \<Rightarrow> session_handle list world
    \<Rightarrow> session_handle list world \<times> (py_exception + 'a option)" where
  "scoped gen body w =
     (let (w1, session) = until_yield gen w
      in case body session of
           Inr v \<Rightarrow>
             (case after_yield gen session Send w1 of
                (w2, None) \<Rightarrow> (w2, Inr (Some v))
              | (w2, Some exc) \<Rightarrow> (w2, Inl exc))
         | Inl exc \<Rightarrow>
             (case after_yield gen session (Throw exc) w1 of
                (w2, None) \<Rightarrow> (w2, Inr None)
              | (w2, Some exc') \<Rightarrow> (w2, Inl exc')))"

section \<open>app/etl/extractor.py\<close>

text \<open>
  The functions of \<^verbatim>\<open>os\<close> and \<^verbatim>\<open>os.path\<close> that the job calls, acting on a
  filesystem state \<open>'fs\<close>. \<^verbatim>\<open>os.path.exists\<close> and \<^verbatim>\<open>os.path.isfile\<close> never raise
  on a string; the other three raise an \<^verbatim>\<open>OSError\<close> or return.
\<close>

record 'fs os_module =
  path_exists :: "'fs \<Rightarrow> string \<Rightarrow> bool"
  makedirs :: "'fs \<Rightarrow> string \<Rightarrow> 'fs \<times> foreign_error option"
  listdir :: "'fs \<Rightarrow> string \<Rightarrow> foreign_error + string list"
  path_isfile :: "'fs \<Rightarrow> string \<Rightarrow> bool"
  remove :: "'fs \<Rightarrow> string \<Rightarrow> 'fs \<times> foreign_error option"

text \<open>\<^verbatim>\<open>posixpath.join\<close> of two strings.\<close>

definition path_join :: "string \<Rightarrow> string \<Rightarrow> string" where
  "path_join a b =
     (if b \<noteq> [] \<and> hd b = CHR ''/'' then b
      else if a = [] \<or> last a = CHR ''/'' then a @ b
      else a @ ''/'' @ b)"

definition ROOT_DIR :: "environ \<Rightarrow> string option" where
  "ROOT_DIR env = env ''ROOT_DIR''"

text \<open>The body of the \<^verbatim>\<open>for\<close> loop, over the names \<^verbatim>\<open>os.listdir\<close> returned.\<close>

fun delete_loop :: "'fs os_module \<Rightarrow> string \<Rightarrow> string list \<Rightarrow> 'fs world \<Rightarrow> 'fs world \<times> foreign_error option" where
  "delete_loop os delete_dir [] w = (w, None)"
| "delete_loop os delete_dir (filename # rest) w =
     (let file_path = path_join delete_dir filename
      in if path_isfile os (resource w) file_path
         then (case remove os (resource w) file_path of
                 (f, Some exc) \<Rightarrow> (w\<lparr>resource := f\<rparr>, Some exc)
               | (f, None) \<Rightarrow>
                   delete_loop os delete_dir rest
                     (logger_log DEBUG (''Deleted file: '' @ file_path) [] (w\<lparr>resource := f\<rparr>)))
         else delete_loop os delete_dir rest
                (logger_log WARNING (''Skipping non-file: '' @ file_path) [] w))"

text \<open>The body of the \<^verbatim>\<open>try\<close> block: the listing, then the loop.\<close>

definition delete_files :: "'fs os_module \<Rightarrow> string \<Rightarrow> 'fs world \<Rightarrow> 'fs world \<times> foreign_error option" where
  "delete_files os delete_dir w =
     (case listdir os (resource w) delete_dir of
        Inl exc \<Rightarrow> (w, Some exc)
      | Inr names \<Rightarrow> delete_loop os delete_dir names w)"

text \<open>The \<^verbatim>\<open>if not os.path.exists(delete_dir)\<close> statement.\<close>

definition create_if_missing :: "'fs os_module \<Rightarrow> string \<Rightarrow> 'fs world \<Rightarrow> 'fs world \<times> foreign_error option" where
  "create_if_missing os delete_dir w =
     (if \<not> path_exists os (resource w) delete_dir
      then (case makedirs os (resource w) delete_dir of
              (f, Some exc) \<Rightarrow> (w\<lparr>resource := f\<rparr>, Some exc)
            | (f, None) \<Rightarrow>
                (logger_log DEBUG (''Created directory: '' @ delete_dir) [] (w\<lparr>resource := f\<rparr>), None))
      else (w, None))"

text \<open>
  \<open>DownloadCEMPAData os root w\<close>: \<open>root\<close> is the module's \<^verbatim>\<open>ROOT_DIR\<close>. The
  second component of the result is the exception that leaves the function, if any.
  \<^verbatim>\<open>os.path.join(None, "cempa")\<close> raises a \<^verbatim>\<open>TypeError\<close>.
\<close>

definition DownloadCEMPAData :: "'fs os_module \<Rightarrow> string option \<Rightarrow> 'fs world \<Rightarrow> 'fs world \<times> py_exception option" where
  "DownloadCEMPAData os root w =
     (case root of
        None \<Rightarrow> (w, Some (TypeError ''expected str, bytes or os.PathLike object, not NoneType''))
      | Some r \<Rightarrow>
          (let delete_dir = path_join r ''cempa''
           in case create_if_missing os delete_dir w of
                (w1, Some exc) \<Rightarrow> (w1, Some (raised exc))
              | (w1, None) \<Rightarrow>
                  (let w2 = logger_log DEBUG (''Deleting all files in directory: '' @ delete_dir) [] w1
                   in case delete_files os delete_dir w2 of
                        (w3, Some exc) \<Rightarrow>
                          (logger_log ERROR (''Error deleting files: '' @ exc_str (raised exc)) [] w3, None)
                      | (w3, None) \<Rightarrow> (w3, None))))"

definition run_download :: "'fs os_module \<Rightarrow> string option \<Rightarrow> 'fs world \<Rightarrow> 'fs world \<times> py_exception option" where
  "run_download os root w = DownloadCEMPAData os root w"

subsection \<open>A POSIX filesystem for the job to run on\<close>

text \<open>
  A filesystem maps physical paths (the component names from the root, no symbolic
  link among them) to nodes; the root \<open>[]\<close> is always a directory. The order of
  \<open>nodes\<close> is the order in which a directory is listed. \<open>denied\<close> holds the
  physical paths on which the system refuses to list, to create in or to unlink
  (permissions, immutable files). A \<open>Special\<close> node is a FIFO, socket or device.
\<close>

datatype node = RegularFile | Directory | Symlink string | Special

record filesystem =
  nodes :: "(string list \<times> node) list"
  cwd :: "string list"
  denied :: "string list list"

definition node_at :: "filesystem \<Rightarrow> string list \<Rightarrow> node option" where
  "node_at fs p = (if p = [] then Some Directory else map_of (nodes fs) p)"

text \<open>\<^verbatim>\<open>p.split('/')\<close>: the components of a path string.\<close>

fun split_path :: "string \<Rightarrow> string list" where
  "split_path [] = [[]]"
| "split_path (c # cs) =
     (if c = CHR ''/'' then [] # split_path cs
      else (case split_path cs of [] \<Rightarrow> [[c]] | x # xs \<Rightarrow> (c # x) # xs))"

definition is_abs :: "string \<Rightarrow> bool" where
  "is_abs p = (p \<noteq> [] \<and> hd p = CHR ''/'')"

text \<open>
  Path resolution as the kernel does it, following every symbolic link: from the
  physical directory \<open>cur\<close>, along the components left. \<open>k\<close> is the number of
  links that may still be followed (40 on Linux, then \<^verbatim>\<open>ELOOP\<close>).
\<close>

fun walk :: "nat \<Rightarrow> filesystem \<Rightarrow> string list \<Rightarrow> string list \<Rightarrow> string list option" where
  "walk k fs cur [] = Some cur"
| "walk k fs cur (c # cs) =
     (if node_at fs cur \<noteq> Some Directory then None
      else if c = [] \<or> c = ''.'' then walk k fs cur cs
      else if c = ''..'' then walk k fs (butlast cur) cs
      else (case node_at fs (cur @ [c]) of
              None \<Rightarrow> None
            | Some (Symlink t) \<Rightarrow>
                (case k of
                   0 \<Rightarrow> None
                 | Suc k' \<Rightarrow>
                     if t = [] then None
                     else walk k' fs (if is_abs t then [] else cur) (split_path t @ cs))
            | Some _ \<Rightarrow> walk k fs (cur @ [c]) cs))"

definition start_dir :: "filesystem \<Rightarrow> string \<Rightarrow> string list" where
  "start_dir fs p = (if is_abs p then [] else cwd fs)"

definition resolve :: "filesystem \<Rightarrow> string \<Rightarrow> string list option" where
  "resolve fs p = (if p = [] then None else walk 40 fs (start_dir fs p) (split_path p))"

definition os_path_exists :: "filesystem \<Rightarrow> string \<Rightarrow> bool" where
  "os_path_exists fs p = (resolve fs p \<noteq> None)"

definition os_path_isfile :: "filesystem \<Rightarrow> string \<Rightarrow> bool" where
  "os_path_isfile fs p = (case resolve fs p of None \<Rightarrow> False | Some q \<Rightarrow> node_at fs q = Some RegularFile)"

definition os_path_isdir :: "filesystem \<Rightarrow> string \<Rightarrow> bool" where
  "os_path_isdir fs p = (case resolve fs p of None \<Rightarrow> False | Some q \<Rightarrow> node_at fs q = Some Directory)"

definition entries :: "filesystem \<Rightarrow> string list \<Rightarrow> string list" where
  "entries fs q = map (\<lambda>(p, n). last p) (filter (\<lambda>(p, n). p \<noteq> [] \<and> butlast p = q) (nodes fs))"

definition os_listdir :: "filesystem \<Rightarrow> string \<Rightarrow> foreign_error + string list" where
  "os_listdir fs p =
     (case resolve fs p of
        None \<Rightarrow> Inl (''FileNotFoundError'', ''[Errno 2] No such file or directory: '' @ p)
      | Some q \<Rightarrow>
          if node_at fs q \<noteq> Some Directory then Inl (''NotADirectoryError'', ''[Errno 20] Not a directory: '' @ p)
          else if q \<in> set (denied fs) then Inl (''PermissionError'', ''[Errno 13] Permission denied: '' @ p)
          else Inr (entries fs q))"

definition valid_name :: "string \<Rightarrow> bool" where
  "valid_name n = (n \<noteq> [] \<and> n \<noteq> ''.'' \<and> n \<noteq> ''..'' \<and> CHR ''/'' \<notin> set n)"

text \<open>
  The directory entry a path names, for the calls that act on the entry itself and
  do not follow a link in the last component (\<^verbatim>\<open>unlink\<close>, \<^verbatim>\<open>mkdir\<close>): the
  physical parent directory and the name in it.
\<close>

definition entry_of :: "filesystem \<Rightarrow> string \<Rightarrow> string list \<Rightarrow> (string list \<times> string) option" where
  "entry_of fs p cs =
     (if p = [] \<or> cs = [] \<or> \<not> valid_name (last cs) then None
      else (case walk 40 fs (start_dir fs p) (butlast cs) of
              None \<Rightarrow> None
            | Some q \<Rightarrow> if node_at fs q = Some Directory then Some (q, last cs) else None))"

definition os_remove :: "filesystem \<Rightarrow> string \<Rightarrow> filesystem \<times> foreign_error option" where
  "os_remove fs p =
     (case entry_of fs p (split_path p) of
        None \<Rightarrow> (fs, Some (''FileNotFoundError'', ''[Errno 2] No such file or directory: '' @ p))
      | Some (q, n) \<Rightarrow>
          (case node_at fs (q @ [n]) of
             None \<Rightarrow> (fs, Some (''FileNotFoundError'', ''[Errno 2] No such file or directory: '' @ p))
           | Some Directory \<Rightarrow> (fs, Some (''IsADirectoryError'', ''[Errno 21] Is a directory: '' @ p))
           | Some _ \<Rightarrow>
               if q @ [n] \<in> set (denied fs) \<or> q \<in> set (denied fs)
               then (fs, Some (''PermissionError'', ''[Errno 13] Permission denied: '' @ p))
               else (fs\<lparr>nodes := filter (\<lambda>(k, v). k \<noteq> q @ [n]) (nodes fs)\<rparr>, None)))"

text \<open>
  Why a walk fails: a component is missing (\<^verbatim>\<open>ENOENT\<close>), a component that must
  be a directory is something else (\<^verbatim>\<open>ENOTDIR\<close>), or too many links were followed
  (\<^verbatim>\<open>ELOOP\<close>). \<open>walk_error\<close> goes the way \<open>walk\<close> goes and names the reason
  where \<open>walk\<close> gives \<open>None\<close>.
\<close>

datatype errno = ENOENT | ENOTDIR | ELOOP | EEXIST | EACCES

fun walk_error :: "nat \<Rightarrow> filesystem \<Rightarrow> string list \<Rightarrow> string list \<Rightarrow> errno" where
  "walk_error k fs cur [] = ENOENT"
| "walk_error k fs cur (c # cs) =
     (if node_at fs cur \<noteq> Some Directory then (if node_at fs cur = None then ENOENT else ENOTDIR)
      else if c = [] \<or> c = ''.'' then walk_error k fs cur cs
      else if c = ''..'' then walk_error k fs (butlast cur) cs
      else (case node_at fs (cur @ [c]) of
              None \<Rightarrow> ENOENT
            | Some (Symlink t) \<Rightarrow>
                (case k of
                   0 \<Rightarrow> ELOOP
                 | Suc k' \<Rightarrow>
                     if t = [] then ENOENT
                     else walk_error k' fs (if is_abs t then [] else cur) (split_path t @ cs))
            | Some _ \<Rightarrow> walk_error k fs (cur @ [c]) cs))"

text \<open>The \<^verbatim>\<open>OSError\<close> subclass Python raises for an error number, with its text.\<close>

definition os_error :: "errno \<Rightarrow> string \<Rightarrow> foreign_error" where
  "os_error e p =
     (case e of
        ENOENT \<Rightarrow> (''FileNotFoundError'', ''[Errno 2] No such file or directory: '' @ p)
      | ENOTDIR \<Rightarrow> (''NotADirectoryError'', ''[Errno 20] Not a directory: '' @ p)
      | ELOOP \<Rightarrow> (''OSError'', ''[Errno 40] Too many levels of symbolic links: '' @ p)
      | EEXIST \<Rightarrow> (''FileExistsError'', ''[Errno 17] File exists: '' @ p)
      | EACCES \<Rightarrow> (''PermissionError'', ''[Errno 13] Permission denied: '' @ p))"

text \<open>
  \<^verbatim>\<open>os.mkdir\<close>, that is \<^verbatim>\<open>mkdir(2)\<close>. Trailing slashes of the path are ignored.
  The parent is resolved first and must be a directory. A last component \<^verbatim>\<open>.\<close> or
  \<^verbatim>\<open>..\<close>, or the root itself, names a directory that exists, and so does a last
  component that is any entry of the parent, a dangling link included: all give
  \<^verbatim>\<open>EEXIST\<close>.
\<close>

definition rstrip_empty :: "string list \<Rightarrow> string list" where
  "rstrip_empty cs = rev (dropWhile (\<lambda>c. c = []) (rev cs))"

definition os_mkdir :: "filesystem \<Rightarrow> string \<Rightarrow> filesystem \<times> foreign_error option" where
  "os_mkdir fs p =
     (let cs = rstrip_empty (split_path p)
      in if p = [] then (fs, Some (os_error ENOENT p))
         else if cs = [] then (fs, Some (os_error EEXIST p))
         else (case walk 40 fs (start_dir fs p) (butlast cs) of
                 None \<Rightarrow> (fs, Some (os_error (walk_error 40 fs (start_dir fs p) (butlast cs)) p))
               | Some q \<Rightarrow>
                   if node_at fs q = None then (fs, Some (os_error ENOENT p))
                   else if node_at fs q \<noteq> Some Directory then (fs, Some (os_error ENOTDIR p))
                   else if last cs = ''.'' \<or> last cs = ''..'' then (fs, Some (os_error EEXIST p))
                   else (case node_at fs (q @ [last cs]) of
                           Some x \<Rightarrow> (fs, Some (os_error EEXIST p))
                         | None \<Rightarrow>
                             if q \<in> set (denied fs) then (fs, Some (os_error EACCES p))
                             else (fs\<lparr>nodes := nodes fs @ [(q @ [last cs], Directory)]\<rparr>, None))))"

text \<open>\<^verbatim>\<open>posixpath.split\<close>: head and tail of a path string.\<close>

definition rstrip_sep :: "string \<Rightarrow> string" where
  "rstrip_sep p = rev (dropWhile (\<lambda>c. c = CHR ''/'') (rev p))"

definition path_split :: "string \<Rightarrow> string \<times> string" where
  "path_split p =
     (let tail = rev (takeWhile (\<lambda>c. c \<noteq> CHR ''/'') (rev p));
          head = take (length p - length tail) p
      in (if head \<noteq> [] \<and> \<not> list_all (\<lambda>c. c = CHR ''/'') head then rstrip_sep head else head, tail))"

definition head_tail :: "string \<Rightarrow> string \<times> string" where
  "head_tail name =
     (let (head, tail) = path_split name
      in if tail = [] then path_split head else (head, tail))"

lemma path_split_shorter:
  assumes "path_split p = (h, t)"
  shows "length h + length t \<le> length p"
proof -
  let ?t = "rev (takeWhile (\<lambda>c. c \<noteq> CHR ''/'') (rev p))"
  let ?h = "take (length p - length ?t) p"
  have lt: "length ?t \<le> length p"
    using length_takeWhile_le [of "\<lambda>c. c \<noteq> CHR ''/''" "rev p"] by simp
  have "length (rstrip_sep ?h) \<le> length ?h"
    using length_dropWhile_le [of "\<lambda>c. c = CHR ''/''" "rev ?h"] by (simp add: rstrip_sep_def)
  then have "length h \<le> length ?h" and "t = ?t"
    using assms by (auto simp: path_split_def Let_def split: if_splits)
  with lt show ?thesis by simp
qed

lemma head_tail_shorter:
  assumes "head_tail name = (h, t)" and "t \<noteq> []"
  shows "length h < length name"
proof -
  obtain h1 t1 where s1: "path_split name = (h1, t1)" by (cases "path_split name")
  have l1: "length h1 + length t1 \<le> length name" by (rule path_split_shorter [OF s1])
  show ?thesis
  proof (cases "t1 = []")
    case True
    then have "path_split h1 = (h, t)" using assms(1) s1 by (simp add: head_tail_def)
    then have "length h + length t \<le> length h1" by (rule path_split_shorter)
    with l1 assms(2) show ?thesis by (cases t) auto
  next
    case False
    then have "h = h1" "t = t1" using assms(1) s1 by (simp_all add: head_tail_def)
    with l1 assms(2) show ?thesis by (cases t) auto
  qed
qed

text \<open>
  \<^verbatim>\<open>os.makedirs(name)\<close> with \<^verbatim>\<open>exist_ok=False\<close>, as the standard library
  writes it: the missing head is made first (a \<^verbatim>\<open>FileExistsError\<close> from there is
  passed over), then \<^verbatim>\<open>mkdir(name)\<close>.
\<close>

function os_makedirs :: "filesystem \<Rightarrow> string \<Rightarrow> filesystem \<times> foreign_error option" where
  "os_makedirs fs name =
     (if fst (head_tail name) \<noteq> [] \<and> snd (head_tail name) \<noteq> [] \<and> \<not> os_path_exists fs (fst (head_tail name))
      then (case os_makedirs fs (fst (head_tail name)) of
              (fs1, Some exc) \<Rightarrow>
                if fst exc = ''FileExistsError''
                then (if snd (head_tail name) = ''.'' then (fs1, None) else os_mkdir fs1 name)
                else (fs1, Some exc)
            | (fs1, None) \<Rightarrow>
                (if snd (head_tail name) = ''.'' then (fs1, None) else os_mkdir fs1 name))
      else os_mkdir fs name)"
  by pat_completeness auto
termination
proof (relation "measure (\<lambda>(fs, name). length name)")
  show "wf (measure (\<lambda>(fs, name). length name))" by simp
next
  fix fs :: filesystem and name :: string
  assume "fst (head_tail name) \<noteq> [] \<and> snd (head_tail name) \<noteq> [] \<and> \<not> os_path_exists fs (fst (head_tail name))"
  then have "length (fst (head_tail name)) < length name"
    using head_tail_shorter [of name "fst (head_tail name)" "snd (head_tail name)"] by simp
  then show "((fs, fst (head_tail name)), (fs, name)) \<in> measure (\<lambda>(fs, name). length name)" by simp
qed

definition posix :: "filesystem os_module" where
  "posix =
     \<lparr>path_exists = os_path_exists,
      makedirs = os_makedirs,
      listdir = os_listdir,
      path_isfile = os_path_isfile,
      remove = os_remove\<rparr>"

section \<open>app/app\_factory.py\<close>

text \<open>
  The scheduler of the module, \<^verbatim>\<open>AsyncIOScheduler()\<close>: jobs added before the
  start wait in \<open>pending_jobs\<close>; \<^verbatim>\<open>start\<close> moves them to the job store and
  refuses a second job with the same id (\<^verbatim>\<open>replace_existing\<close> is not set);
  \<^verbatim>\<open>shutdown\<close> stops the scheduler and shuts its job store down, and the default
  store, which keeps its jobs in memory, is empty after that.
\<close>

record cron_trigger =
  hour :: nat
  minute :: nat

datatype job_func = DownloadCEMPAData_job

record job =
  func :: job_func
  trigger :: cron_trigger
  job_id :: string

record scheduler =
  pending_jobs :: "job list"
  stored_jobs :: "job list"
  running :: bool

definition AsyncIOScheduler :: scheduler where
  "AsyncIOScheduler = \<lparr>pending_jobs = [], stored_jobs = [], running = False\<rparr>"

definition real_add_job :: "job \<Rightarrow> job list \<Rightarrow> foreign_error + job list" where
  "real_add_job j store =
     (if job_id j \<in> set (map job_id store)
      then Inl (''ConflictingIdError'', ''Job identifier ('' @ job_id j @ '') conflicts with an existing job'')
      else Inr (store @ [j]))"

definition add_job :: "job \<Rightarrow> scheduler \<Rightarrow> scheduler \<times> foreign_error option" where
  "add_job j sch =
     (if \<not> running sch then (sch\<lparr>pending_jobs := pending_jobs sch @ [j]\<rparr>, None)
      else (case real_add_job j (stored_jobs sch) of
              Inl exc \<Rightarrow> (sch, Some exc)
            | Inr store \<Rightarrow> (sch\<lparr>stored_jobs := store\<rparr>, None)))"

fun add_pending :: "job list \<Rightarrow> job list \<Rightarrow> foreign_error + job list" where
  "add_pending [] store = Inr store"
| "add_pending (j # js) store =
     (case real_add_job j store of Inl exc \<Rightarrow> Inl exc | Inr store' \<Rightarrow> add_pending js store')"

definition scheduler_start :: "scheduler \<Rightarrow> scheduler \<times> foreign_error option" where
  "scheduler_start sch =
     (if running sch then (sch, Some (''SchedulerAlreadyRunningError'', ''Scheduler is already running''))
      else (case add_pending (pending_jobs sch) (stored_jobs sch) of
              Inl exc \<Rightarrow> (sch, Some exc)
            | Inr store \<Rightarrow> (sch\<lparr>pending_jobs := [], stored_jobs := store, running := True\<rparr>, None)))"

definition scheduler_shutdown :: "bool \<Rightarrow> scheduler \<Rightarrow> scheduler \<times> foreign_error option" where
  "scheduler_shutdown wait sch =
     (if \<not> running sch then (sch, Some (''SchedulerNotRunningError'', ''Scheduler is not running''))
      else (sch\<lparr>stored_jobs := [], running := False\<rparr>, None))"

text \<open>
  The state \<^verbatim>\<open>lifespan\<close> acts on: the database (whether its tables exist, whether
  the server answers), the engine's pool (\<open>engine_disposed\<close>: \<^verbatim>\<open>dispose()\<close> was
  called and the engine has not been used since; a disposed engine opens a new pool
  when it is used again), the scheduler, and the calls made on these collaborators,
  in order.
\<close>

datatype call =
    Create_all
  | Add_job job
  | Scheduler_start
  | Scheduler_shutdown bool
  | Engine_dispose

record service =
  database_up :: bool
  tables_exist :: bool
  engine_disposed :: bool
  sched :: scheduler
  calls :: "call list"

definition create_all :: "service \<Rightarrow> service \<times> foreign_error option" where
  "create_all sv =
     (let sv1 = sv\<lparr>engine_disposed := False, calls := calls sv @ [Create_all]\<rparr>
      in if database_up sv then (sv1\<lparr>tables_exist := True\<rparr>, None)
         else (sv1, Some (''OperationalError'', ''connection refused'')))"

text \<open>\<^verbatim>\<open>lifespan\<close> up to its \<^verbatim>\<open>yield\<close>: the startup hook.\<close>

definition lifespan_startup :: "service \<Rightarrow> service \<times> foreign_error option" where
  "lifespan_startup sv =
     (case create_all sv of
        (sv1, Some exc) \<Rightarrow> (sv1, Some exc)
      | (sv1, None) \<Rightarrow>
          (let trigger = \<lparr>hour = 3, minute = 30\<rparr>;
               j = \<lparr>func = DownloadCEMPAData_job, trigger = trigger, job_id = ''DailyCEMPADataDownload''\<rparr>;
               sv2 = sv1\<lparr>calls := calls sv1 @ [Add_job j]\<rparr>
           in case add_job j (sched sv2) of
                (sch, Some exc) \<Rightarrow> (sv2\<lparr>sched := sch\<rparr>, Some exc)
              | (sch, None) \<Rightarrow>
                  (let sv3 = sv2\<lparr>sched := sch, calls := calls sv2 @ [Scheduler_start]\<rparr>
                   in case scheduler_start (sched sv3) of
                        (sch', exc) \<Rightarrow> (sv3\<lparr>sched := sch'\<rparr>, exc))))"

text \<open>\<^verbatim>\<open>lifespan\<close> from its \<^verbatim>\<open>yield\<close> on, resumed normally: the shutdown hook.\<close>

definition lifespan_shutdown :: "service \<Rightarrow> service \<times> foreign_error option" where
  "lifespan_shutdown sv =
     (let sv1 = sv\<lparr>calls := calls sv @ [Scheduler_shutdown False]\<rparr>
      in case scheduler_shutdown False (sched sv1) of
           (sch, Some exc) \<Rightarrow> (sv1\<lparr>sched := sch\<rparr>, Some exc)
         | (sch, None) \<Rightarrow>
             (sv1\<lparr>sched := sch, engine_disposed := True, calls := calls sv1 @ [Engine_dispose]\<rparr>, None))"

text \<open>The service as the import of the module leaves it, before \<^verbatim>\<open>lifespan\<close> runs.\<close>

definition imported_service :: "bool \<Rightarrow> bool \<Rightarrow> service" where
  "imported_service up tables =
     \<lparr>database_up = up, tables_exist = tables, engine_disposed = False,
      sched = AsyncIOScheduler, calls = []\<rparr>"

section \<open>Concrete filesystems\<close>

text \<open>
  The scenario of the specification: \<^verbatim>\<open>/data/cempa\<close> holds the files
  \<^verbatim>\<open>a.tmp\<close> and \<^verbatim>\<open>b.tmp\<close> and the subdirectory \<^verbatim>\<open>keep\<close>.
\<close>

definition workspace_fs :: filesystem where
  "workspace_fs =
     \<lparr>nodes = [([''data''], Directory),
               ([''data'', ''cempa''], Directory),
               ([''data'', ''cempa'', ''a.tmp''], RegularFile),
               ([''data'', ''cempa'', ''keep''], Directory),
               ([''data'', ''cempa'', ''b.tmp''], RegularFile)],
      cwd = [], denied = []\<rparr>"




text \<open>
  A workspace with three files, the second of which the system refuses to unlink, and
  the scenario's workspace with its listing refused.
\<close>

definition locked_fs :: filesystem where
  "locked_fs =
     \<lparr>nodes = [([''data''], Directory),
               ([''data'', ''cempa''], Directory),
               ([''data'', ''cempa'', ''a.tmp''], RegularFile),
               ([''data'', ''cempa'', ''b.tmp''], RegularFile),
               ([''data'', ''cempa'', ''c.tmp''], RegularFile)],
      cwd = [], denied = [[''data'', ''cempa'', ''b.tmp'']]\<rparr>"

definition unlistable_fs :: filesystem where
  "unlistable_fs = workspace_fs\<lparr>denied := [[''data'', ''cempa'']]\<rparr>"

text \<open>The \<^verbatim>\<open>DEBUG\<close> record written before the cleanup starts.\<close>

definition announce :: "string \<Rightarrow> 'fs world \<Rightarrow> 'fs world" where
  "announce delete_dir w = logger_log DEBUG (''Deleting all files in directory: '' @ delete_dir) [] w"


section \<open>Auxiliary notions for the proofs about the filesystem\<close>

text \<open>One step of \<open>walk\<close>: the links left to follow, the directory reached and the components left.\<close>

definition walk_step :: "nat \<Rightarrow> filesystem \<Rightarrow> string list \<Rightarrow> string \<Rightarrow> string list \<Rightarrow> (nat \<times> string list \<times> string list) option" where
  "walk_step k fs cur c cs =
     (if node_at fs cur \<noteq> Some Directory then None
      else if c = [] \<or> c = ''.'' then Some (k, cur, cs)
      else if c = ''..'' then Some (k, butlast cur, cs)
      else (case node_at fs (cur @ [c]) of
              None \<Rightarrow> None
            | Some (Symlink t) \<Rightarrow>
                (case k of
                   0 \<Rightarrow> None
                 | Suc k' \<Rightarrow>
                     if t = [] then None
                     else Some (k', if is_abs t then [] else cur, split_path t @ cs))
            | Some _ \<Rightarrow> Some (k, cur @ [c], cs)))"


text \<open>\<open>fs\<close> is contained in \<open>fs'\<close>: every node of \<open>fs\<close> is the same node of \<open>fs'\<close>.\<close>

definition fs_le :: "filesystem \<Rightarrow> filesystem \<Rightarrow> bool" where
  "fs_le fs fs' = (\<forall>p x. node_at fs p = Some x \<longrightarrow> node_at fs' p = Some x)"

text \<open>The filesystem without the node at \<open>x\<close>, as \<open>os_remove\<close> leaves it.\<close>

definition unlink :: "string list \<Rightarrow> filesystem \<Rightarrow> filesystem" where
  "unlink x fs = fs\<lparr>nodes := filter (\<lambda>(k, v). k \<noteq> x) (nodes fs)\<rparr>"




section \<open>Properties of app/database/session.py\<close>

subsection \<open>The transaction completer\<close>

lemma commit_and_refresh_returns:
  assumes "commit_then_refresh db entity (resource w) = (d, Inr entity')"
    and "py_str entity' = Inr s"
  shows "commit_and_refresh db py_str entity entity_id w =
     (\<lparr>resource = d, logged = logged w @
         [\<lparr>level = DEBUG, msg = ''Committing updated entity (id=%s) to the database'',
            args = [IntArg entity_id]\<rparr>,
          \<lparr>level = DEBUG, msg = ''Updated entity: %s'', args = [StrArg s]\<rparr>]\<rparr>,
      Inr entity')"
  using assms
  by (auto simp: commit_and_refresh_def commit_then_refresh_def logger_log_def
      split: prod.splits option.splits sum.splits)

lemma commit_and_refresh_rolls_back:
  assumes "commit_then_refresh db entity (resource w) = (d, Inl exc)"
    and "rollback db d = (d', None)"
  shows "commit_and_refresh db py_str entity entity_id w =
     (\<lparr>resource = d', logged = logged w @
         [\<lparr>level = DEBUG, msg = ''Committing updated entity (id=%s) to the database'',
            args = [IntArg entity_id]\<rparr>,
          \<lparr>level = ERROR, msg = ''Error updating entity (id=%s): %s'',
            args = [IntArg entity_id, ExcArg (raised exc)]\<rparr>]\<rparr>,
      Inl (HTTPException 400 ''Error updating entity''))"
  using assms
  by (auto simp: commit_and_refresh_def commit_then_refresh_def commit_and_refresh_except_def
      HTTP_400_BAD_REQUEST_def logger_log_def split: prod.splits option.splits sum.splits)



text \<open>
  C1, as amended. When commit and refresh both succeed and \<^verbatim>\<open>str(entity)\<close> (called
  for the log inside the \<^verbatim>\<open>try\<close> block) does not raise, the function returns the
  refreshed entity and leaves the session as the refresh left it. When commit or
  refresh raises and the rollback itself returns, the session is left as the rollback
  leaves it and the function fails with the HTTP exception of status 400 whose detail
  is the fixed text \<^verbatim>\<open>Error updating entity\<close> (capital E); the internal error
  \<open>exc\<close> goes to the log record only, and the exception raised is the same whatever
  \<open>exc\<close> is.
\<close>

theorem commit_and_refresh_contract:
  "(commit_then_refresh db entity (resource w) = (d, Inr entity') \<and> py_str entity' = Inr s \<longrightarrow>
      snd (commit_and_refresh db py_str entity entity_id w) = Inr entity' \<and>
      resource (fst (commit_and_refresh db py_str entity entity_id w)) = d)
   \<and> (commit_then_refresh db entity (resource w) = (d, Inl exc) \<and> rollback db d = (d', None) \<longrightarrow>
      snd (commit_and_refresh db py_str entity entity_id w) = Inl (HTTPException 400 ''Error updating entity'') \<and>
      resource (fst (commit_and_refresh db py_str entity entity_id w)) = d' \<and>
      logged (fst (commit_and_refresh db py_str entity entity_id w)) = logged w @
         [\<lparr>level = DEBUG, msg = ''Committing updated entity (id=%s) to the database'',
            args = [IntArg entity_id]\<rparr>,
          \<lparr>level = ERROR, msg = ''Error updating entity (id=%s): %s'',
            args = [IntArg entity_id, ExcArg (raised exc)]\<rparr>])"
proof (intro conjI impI)
  assume a: "commit_then_refresh db entity (resource w) = (d, Inr entity') \<and> py_str entity' = Inr s"
  show "snd (commit_and_refresh db py_str entity entity_id w) = Inr entity'"
    using a by (simp add: commit_and_refresh_returns [of db entity w d entity' py_str s])
  show "resource (fst (commit_and_refresh db py_str entity entity_id w)) = d"
    using a by (simp add: commit_and_refresh_returns [of db entity w d entity' py_str s])
next
  assume a: "commit_then_refresh db entity (resource w) = (d, Inl exc) \<and> rollback db d = (d', None)"
  then have r: "commit_and_refresh db py_str entity entity_id w =
     (\<lparr>resource = d', logged = logged w @
         [\<lparr>level = DEBUG, msg = ''Committing updated entity (id=%s) to the database'',
            args = [IntArg entity_id]\<rparr>,
          \<lparr>level = ERROR, msg = ''Error updating entity (id=%s): %s'',
            args = [IntArg entity_id, ExcArg (raised exc)]\<rparr>]\<rparr>,
      Inl (HTTPException 400 ''Error updating entity''))"
    by (simp add: commit_and_refresh_rolls_back)
  show "snd (commit_and_refresh db py_str entity entity_id w) = Inl (HTTPException 400 ''Error updating entity'')"
    by (simp add: r)
  show "resource (fst (commit_and_refresh db py_str entity entity_id w)) = d'"
    by (simp add: r)
  show "logged (fst (commit_and_refresh db py_str entity entity_id w)) = logged w @
         [\<lparr>level = DEBUG, msg = ''Committing updated entity (id=%s) to the database'',
            args = [IntArg entity_id]\<rparr>,
          \<lparr>level = ERROR, msg = ''Error updating entity (id=%s): %s'',
            args = [IntArg entity_id, ExcArg (raised exc)]\<rparr>]"
    by (simp add: r)
qed

text \<open>
  The contract at work on the in-memory session: a pending change of entity 1 from
  \<open>old\<close> to \<open>new\<close> is committed and the entity comes back refreshed; with the
  server unreachable the pending change is discarded and the fixed exception is raised.
\<close>

theorem commit_and_refresh_contract_witness:
  "snd (commit_and_refresh memory_session entity_str (1, ''old'') 1
      \<lparr>resource = \<lparr>rows = [(1, ''old'')], pending = [(1, ''new'')], reachable = True\<rparr>, logged = []\<rparr>)
     = Inr (1, ''new'')
   \<and> snd (commit_and_refresh memory_session entity_str (1, ''old'') 1
      \<lparr>resource = \<lparr>rows = [(1, ''old'')], pending = [(1, ''new'')], reachable = False\<rparr>, logged = []\<rparr>)
     = Inl (HTTPException 400 ''Error updating entity'')
   \<and> resource (fst (commit_and_refresh memory_session entity_str (1, ''old'') 1
      \<lparr>resource = \<lparr>rows = [(1, ''old'')], pending = [(1, ''new'')], reachable = False\<rparr>, logged = []\<rparr>))
     = \<lparr>rows = [(1, ''old'')], pending = [], reachable = False\<rparr>"
proof -
  let ?up = "\<lparr>rows = [(1, ''old'')], pending = [(1, ''new'')], reachable = True\<rparr>"
  let ?down = "\<lparr>rows = [(1, ''old'')], pending = [(1, ''new'')], reachable = False\<rparr>"
  have ok: "commit_then_refresh memory_session (1, ''old'') (resource \<lparr>resource = ?up, logged = []\<rparr>)
      = (\<lparr>rows = [(1, ''new''), (1, ''old'')], pending = [], reachable = True\<rparr>, Inr (1, ''new''))
     \<and> entity_str (1, ''new'') = Inr ''new''"
    by (simp add: commit_then_refresh_def memory_session_def entity_str_def)
  have bad: "commit_then_refresh memory_session (1, ''old'') (resource \<lparr>resource = ?down, logged = []\<rparr>)
      = (?down, Inl (''OperationalError'', ''connection to db.internal:5432 refused''))
     \<and> rollback memory_session ?down = (\<lparr>rows = [(1, ''old'')], pending = [], reachable = False\<rparr>, None)"
    by (simp add: commit_then_refresh_def memory_session_def)
  note c = commit_and_refresh_contract [where db = memory_session and py_str = entity_str
      and entity = "(1, ''old'')" and entity_id = 1]
  from c [where w = "\<lparr>resource = ?up, logged = []\<rparr>" and s = "''new''", THEN conjunct1, rule_format, OF ok]
    c [where w = "\<lparr>resource = ?down, logged = []\<rparr>", THEN conjunct2, rule_format, OF bad]
  show ?thesis by simp
qed

text \<open>
  C1 as the specification words it fails in three ways. With the server unreachable
  the exception raised does not carry the message \<^verbatim>\<open>error updating entity\<close>: the
  detail starts with a capital letter. When the rollback raises as well, what leaves
  the function is the rollback's own exception with its internal text, not the fixed
  one. And when commit and refresh both succeed but \<^verbatim>\<open>str(entity)\<close> raises, the
  function does not return the entity: it rolls back and raises the HTTP exception.
\<close>

theorem commit_and_refresh_counterexample:
  "snd (commit_and_refresh memory_session entity_str (1, ''old'') 1
      \<lparr>resource = \<lparr>rows = [(1, ''old'')], pending = [(1, ''new'')], reachable = False\<rparr>, logged = []\<rparr>)
     \<noteq> Inl (HTTPException 400 ''error updating entity'')
   \<and> snd (commit_and_refresh broken_session entity_str (1, ''old'') 1
      \<lparr>resource = \<lparr>rows = [(1, ''old'')], pending = [(1, ''new'')], reachable = False\<rparr>, logged = []\<rparr>)
     = Inl (Exception ''InterfaceError'' ''connection is closed'')
   \<and> commit_then_refresh memory_session (1, ''old'')
        \<lparr>rows = [(1, ''old'')], pending = [(1, ''new'')], reachable = True\<rparr>
     = (\<lparr>rows = [(1, ''new''), (1, ''old'')], pending = [], reachable = True\<rparr>, Inr (1, ''new''))
   \<and> snd (commit_and_refresh memory_session raising_str (1, ''old'') 1
      \<lparr>resource = \<lparr>rows = [(1, ''old'')], pending = [(1, ''new'')], reachable = True\<rparr>, logged = []\<rparr>)
     = Inl (HTTPException 400 ''Error updating entity'')"
  by (simp add: commit_and_refresh_def commit_and_refresh_except_def commit_then_refresh_def
      memory_session_def broken_session_def entity_str_def raising_str_def raised_def
      logger_log_def HTTP_400_BAD_REQUEST_def)




subsection \<open>The database URL\<close>

lemma database_url_given:
  "env ''DATABASE_URL'' = Some u \<Longrightarrow> DATABASE_URL env = Inr u"
  by (simp add: DATABASE_URL_def)

lemma database_url_built:
  assumes "env ''DATABASE_URL'' = None"
    and "env ''DATABASE_USER'' = Some us" "env ''DATABASE_PASSWORD'' = Some pw"
    and "env ''DATABASE_HOST'' = Some h" "env ''DATABASE_PORT'' = Some po"
    and "env ''DATABASE_NAME'' = Some n"
    and "us \<noteq> []" "pw \<noteq> []" "h \<noteq> []" "po \<noteq> []" "n \<noteq> []"
  shows "DATABASE_URL env = Inr (''postgresql+asyncpg://'' @ us @ '':'' @ pw @ ''@'' @ h @ '':'' @ po @ ''/'' @ n)"
  using assms by (simp add: DATABASE_URL_def truthy_def format_database_url_def)

lemma database_url_missing:
  assumes "env ''DATABASE_URL'' = None"
    and "\<not> truthy (env ''DATABASE_USER'') \<or> \<not> truthy (env ''DATABASE_PASSWORD'') \<or>
         \<not> truthy (env ''DATABASE_HOST'') \<or> \<not> truthy (env ''DATABASE_PORT'') \<or>
         \<not> truthy (env ''DATABASE_NAME'')"
  shows "DATABASE_URL env = Inl (ValueError ''Missing database connection parameters in environment variables'')"
  using assms by (auto simp add: DATABASE_URL_def)

text \<open>
  C4, as amended. A \<^verbatim>\<open>DATABASE_URL\<close> that is set is the connection string, as
  it is. Otherwise, when the five discrete variables are all set and none of them is
  the empty string, the connection string is
  \<^verbatim>\<open>postgresql+asyncpg://<user>:<password>@<host>:<port>/<name>\<close>. In both cases
  the string is handed to \<^verbatim>\<open>create_async_engine\<close>: the import gives the engine on
  that string, or fails with the exception the engine constructor raises for it.
  Otherwise (one of the five is unset or empty) the import fails with the
  \<^verbatim>\<open>ValueError\<close> of the module, whatever the engine constructor would accept, and
  creates neither the engine nor the session maker.
\<close>

theorem database_url_resolution:
  "(env ''DATABASE_URL'' = Some u \<longrightarrow> DATABASE_URL env = Inr u)
   \<and> (env ''DATABASE_URL'' = None \<and>
       env ''DATABASE_USER'' = Some us \<and> env ''DATABASE_PASSWORD'' = Some pw \<and>
       env ''DATABASE_HOST'' = Some h \<and> env ''DATABASE_PORT'' = Some po \<and>
       env ''DATABASE_NAME'' = Some n \<and>
       us \<noteq> [] \<and> pw \<noteq> [] \<and> h \<noteq> [] \<and> po \<noteq> [] \<and> n \<noteq> [] \<longrightarrow>
      DATABASE_URL env = Inr (''postgresql+asyncpg://'' @ us @ '':'' @ pw @ ''@'' @ h @ '':'' @ po @ ''/'' @ n))
   \<and> (\<forall>c. DATABASE_URL env = Inr c \<longrightarrow>
        import_session_module url_error env =
          (case url_error c of
             Some exc \<Rightarrow> Inl (raised exc)
           | None \<Rightarrow>
               Inr \<lparr>module_engine = \<lparr>url = c, echo = True, future = True\<rparr>,
                    async_session = \<lparr>bind = \<lparr>url = c, echo = True, future = True\<rparr>,
                                     expire_on_commit = False\<rparr>\<rparr>))
   \<and> (env ''DATABASE_URL'' = None \<and>
       (\<not> truthy (env ''DATABASE_USER'') \<or> \<not> truthy (env ''DATABASE_PASSWORD'') \<or>
        \<not> truthy (env ''DATABASE_HOST'') \<or> \<not> truthy (env ''DATABASE_PORT'') \<or>
        \<not> truthy (env ''DATABASE_NAME'')) \<longrightarrow>
      import_session_module url_error env =
        Inl (ValueError ''Missing database connection parameters in environment variables''))"
proof (intro conjI impI allI)
  assume "env ''DATABASE_URL'' = Some u"
  then show "DATABASE_URL env = Inr u" by (rule database_url_given)
next
  assume "env ''DATABASE_URL'' = None \<and>
       env ''DATABASE_USER'' = Some us \<and> env ''DATABASE_PASSWORD'' = Some pw \<and>
       env ''DATABASE_HOST'' = Some h \<and> env ''DATABASE_PORT'' = Some po \<and>
       env ''DATABASE_NAME'' = Some n \<and>
       us \<noteq> [] \<and> pw \<noteq> [] \<and> h \<noteq> [] \<and> po \<noteq> [] \<and> n \<noteq> []"
  then show "DATABASE_URL env = Inr (''postgresql+asyncpg://'' @ us @ '':'' @ pw @ ''@'' @ h @ '':'' @ po @ ''/'' @ n)"
    by (simp add: database_url_built)
next
  fix c
  assume "DATABASE_URL env = Inr c"
  then show "import_session_module url_error env =
          (case url_error c of
             Some exc \<Rightarrow> Inl (raised exc)
           | None \<Rightarrow>
               Inr \<lparr>module_engine = \<lparr>url = c, echo = True, future = True\<rparr>,
                    async_session = \<lparr>bind = \<lparr>url = c, echo = True, future = True\<rparr>,
                                     expire_on_commit = False\<rparr>\<rparr>)"
    by (simp add: import_session_module_def create_async_engine_def async_sessionmaker_def
        split: option.splits)
next
  assume "env ''DATABASE_URL'' = None \<and>
       (\<not> truthy (env ''DATABASE_USER'') \<or> \<not> truthy (env ''DATABASE_PASSWORD'') \<or>
        \<not> truthy (env ''DATABASE_HOST'') \<or> \<not> truthy (env ''DATABASE_PORT'') \<or>
        \<not> truthy (env ''DATABASE_NAME''))"
  then have "DATABASE_URL env = Inl (ValueError ''Missing database connection parameters in environment variables'')"
    using database_url_missing by blast
  then show "import_session_module url_error env =
        Inl (ValueError ''Missing database connection parameters in environment variables'')"
    by (simp add: import_session_module_def)
qed

text \<open>
  A set \<^verbatim>\<open>DATABASE_URL\<close> is taken as it is and the engine is on it; the five
  variables give the formatted string, which the engine constructor may still refuse
  (here it refuses the one with the port \<^verbatim>\<open>abc\<close>); and with nothing set the import
  fails with the module's own error.
\<close>

theorem database_url_resolution_witness:
  "DATABASE_URL [''DATABASE_URL'' \<mapsto> ''sqlite+aiosqlite:///cempa.db''] = Inr ''sqlite+aiosqlite:///cempa.db''
   \<and> import_session_module (rejecting []) [''DATABASE_URL'' \<mapsto> ''sqlite+aiosqlite:///cempa.db'']
       = Inr \<lparr>module_engine = \<lparr>url = ''sqlite+aiosqlite:///cempa.db'', echo = True, future = True\<rparr>,
              async_session = \<lparr>bind = \<lparr>url = ''sqlite+aiosqlite:///cempa.db'', echo = True, future = True\<rparr>,
                               expire_on_commit = False\<rparr>\<rparr>
   \<and> DATABASE_URL [''DATABASE_USER'' \<mapsto> ''cempa'', ''DATABASE_PASSWORD'' \<mapsto> ''s3cret'',
         ''DATABASE_HOST'' \<mapsto> ''db'', ''DATABASE_PORT'' \<mapsto> ''abc'', ''DATABASE_NAME'' \<mapsto> ''gra'']
       = Inr ''postgresql+asyncpg://cempa:s3cret@db:abc/gra''
   \<and> import_session_module (rejecting [''postgresql+asyncpg://cempa:s3cret@db:abc/gra''])
         [''DATABASE_USER'' \<mapsto> ''cempa'', ''DATABASE_PASSWORD'' \<mapsto> ''s3cret'',
          ''DATABASE_HOST'' \<mapsto> ''db'', ''DATABASE_PORT'' \<mapsto> ''abc'', ''DATABASE_NAME'' \<mapsto> ''gra'']
       = Inl (Exception ''ArgumentError'' ''Could not parse SQLAlchemy URL from given URL string'')
   \<and> import_session_module (rejecting []) Map.empty =
        Inl (ValueError ''Missing database connection parameters in environment variables'')"
proof -
  let ?e1 = "[''DATABASE_URL'' \<mapsto> ''sqlite+aiosqlite:///cempa.db'']"
  let ?e2 = "[''DATABASE_USER'' \<mapsto> ''cempa'', ''DATABASE_PASSWORD'' \<mapsto> ''s3cret'',
         ''DATABASE_HOST'' \<mapsto> ''db'', ''DATABASE_PORT'' \<mapsto> ''abc'', ''DATABASE_NAME'' \<mapsto> ''gra'']"
  let ?u2 = "''postgresql+asyncpg://cempa:s3cret@db:abc/gra''"
  have h1: "?e1 ''DATABASE_URL'' = Some ''sqlite+aiosqlite:///cempa.db''"
    by simp
  have h2: "?e2 ''DATABASE_URL'' = None \<and>
       ?e2 ''DATABASE_USER'' = Some ''cempa'' \<and> ?e2 ''DATABASE_PASSWORD'' = Some ''s3cret'' \<and>
       ?e2 ''DATABASE_HOST'' = Some ''db'' \<and> ?e2 ''DATABASE_PORT'' = Some ''abc'' \<and>
       ?e2 ''DATABASE_NAME'' = Some ''gra'' \<and>
       ''cempa'' \<noteq> [] \<and> ''s3cret'' \<noteq> [] \<and> ''db'' \<noteq> [] \<and> ''abc'' \<noteq> [] \<and> ''gra'' \<noteq> []"
    by simp
  have h3: "(Map.empty :: environ) ''DATABASE_URL'' = None \<and>
       (\<not> truthy ((Map.empty :: environ) ''DATABASE_USER'') \<or> \<not> truthy ((Map.empty :: environ) ''DATABASE_PASSWORD'') \<or>
        \<not> truthy ((Map.empty :: environ) ''DATABASE_HOST'') \<or> \<not> truthy ((Map.empty :: environ) ''DATABASE_PORT'') \<or>
        \<not> truthy ((Map.empty :: environ) ''DATABASE_NAME''))"
    by (simp add: truthy_def)
  have c1: "DATABASE_URL ?e1 = Inr ''sqlite+aiosqlite:///cempa.db''"
    by (rule database_url_resolution [where env = ?e1 and u = "''sqlite+aiosqlite:///cempa.db''",
          THEN conjunct1, rule_format, OF h1])
  have c2: "DATABASE_URL ?e2 = Inr ?u2"
    using database_url_resolution [where env = ?e2 and us = "''cempa''" and pw = "''s3cret''"
        and h = "''db''" and po = "''abc''" and n = "''gra''",
        THEN conjunct2, THEN conjunct1, rule_format, OF h2] by simp
  have i1: "import_session_module (rejecting []) ?e1
       = Inr \<lparr>module_engine = \<lparr>url = ''sqlite+aiosqlite:///cempa.db'', echo = True, future = True\<rparr>,
              async_session = \<lparr>bind = \<lparr>url = ''sqlite+aiosqlite:///cempa.db'', echo = True, future = True\<rparr>,
                               expire_on_commit = False\<rparr>\<rparr>"
    using database_url_resolution [where env = ?e1 and url_error = "rejecting []",
        THEN conjunct2, THEN conjunct2, THEN conjunct1, rule_format, OF c1]
    by (simp add: rejecting_def)
  have i2: "import_session_module (rejecting [?u2]) ?e2
       = Inl (Exception ''ArgumentError'' ''Could not parse SQLAlchemy URL from given URL string'')"
    using database_url_resolution [where env = ?e2 and url_error = "rejecting [?u2]",
        THEN conjunct2, THEN conjunct2, THEN conjunct1, rule_format, OF c2]
    by (simp add: rejecting_def raised_def)
  have i3: "import_session_module (rejecting []) Map.empty =
        Inl (ValueError ''Missing database connection parameters in environment variables'')"
    by (rule database_url_resolution [where env = Map.empty and url_error = "rejecting []",
          THEN conjunct2, THEN conjunct2, THEN conjunct2, rule_format, OF h3])
  show ?thesis
    by (intro conjI, rule c1, rule i1, rule c2, rule i2, rule i3)
qed

text \<open>
  C4 as the specification words it fails when one of the five variables is present
  but empty, here the password: all five are set and no connection string is built,
  the import fails.
\<close>

theorem database_url_counterexample:
  "DATABASE_URL [''DATABASE_USER'' \<mapsto> ''cempa'', ''DATABASE_PASSWORD'' \<mapsto> '''',
         ''DATABASE_HOST'' \<mapsto> ''db'', ''DATABASE_PORT'' \<mapsto> ''5432'', ''DATABASE_NAME'' \<mapsto> ''gra'']
     = Inl (ValueError ''Missing database connection parameters in environment variables'')
   \<and> DATABASE_URL [''DATABASE_USER'' \<mapsto> ''cempa'', ''DATABASE_PASSWORD'' \<mapsto> '''',
         ''DATABASE_HOST'' \<mapsto> ''db'', ''DATABASE_PORT'' \<mapsto> ''5432'', ''DATABASE_NAME'' \<mapsto> ''gra'']
     \<noteq> Inr ''postgresql+asyncpg://cempa:@db:5432/gra''"
  by (simp add: DATABASE_URL_def truthy_def)

subsection \<open>The session providers\<close>

lemma get_session_until_yield:
  "until_yield (get_session maker) w =
     (\<lparr>resource = resource w @ [\<lparr>session_bind = bind maker, session_closed = False\<rparr>],
       logged = logged w @
         [\<lparr>level = DEBUG, msg = ''Creating new database session'', args = []\<rparr>,
          \<lparr>level = DEBUG, msg = ''Yielding database session'', args = []\<rparr>]\<rparr>,
      length (resource w))"
  by (simp add: get_session_def open_session_def logger_log_def Let_def)

lemma get_session_for_queue_until_yield:
  "until_yield (get_session_for_queue maker) w =
     (\<lparr>resource = resource w @ [\<lparr>session_bind = bind maker, session_closed = False\<rparr>],
       logged = logged w @
         [\<lparr>level = DEBUG, msg = ''Creating new database session'', args = []\<rparr>,
          \<lparr>level = DEBUG, msg = ''Yielding database session'', args = []\<rparr>]\<rparr>,
      length (resource w))"
  by (simp add: get_session_for_queue_def open_session_def logger_log_def Let_def)

lemma after_yield_closes:
  assumes "gen = get_session maker \<or> gen = get_session_for_queue maker"
  shows "resource (fst (after_yield gen i r w)) = close_session i (resource w)"
    and "snd (after_yield gen i r w) = (case r of Send \<Rightarrow> None | Throw exc \<Rightarrow> Some exc | Close \<Rightarrow> None)"
  using assms by (auto simp: get_session_def get_session_for_queue_def)

lemma close_session_closed:
  "i < length reg \<Longrightarrow> session_closed (close_session i reg ! i)"
  by (simp add: close_session_def)

lemma close_session_last:
  "close_session (length reg) (reg @ [s]) = reg @ [s\<lparr>session_closed := True\<rparr>]"
  by (simp add: close_session_def)

lemma scoped_get_session:
  "scoped (get_session maker) body w =
     (\<lparr>resource = resource w @ [\<lparr>session_bind = bind maker, session_closed = True\<rparr>],
       logged = logged w @
         [\<lparr>level = DEBUG, msg = ''Creating new database session'', args = []\<rparr>,
          \<lparr>level = DEBUG, msg = ''Yielding database session'', args = []\<rparr>]\<rparr>,
      case body (length (resource w)) of Inl exc \<Rightarrow> Inl exc | Inr v \<Rightarrow> Inr (Some v))"
  by (simp add: scoped_def get_session_until_yield, simp add: get_session_def close_session_last
      split: sum.splits)

lemma scoped_get_session_for_queue:
  "scoped (get_session_for_queue maker) body w =
     (\<lparr>resource = resource w @ [\<lparr>session_bind = bind maker, session_closed = True\<rparr>],
       logged = logged w @
         [\<lparr>level = DEBUG, msg = ''Creating new database session'', args = []\<rparr>,
          \<lparr>level = DEBUG, msg = ''Yielding database session'', args = []\<rparr>]\<rparr>,
      case body (length (resource w)) of Inl exc \<Rightarrow> Inl exc | Inr v \<Rightarrow> Inr (Some v))"
  by (simp add: scoped_def get_session_for_queue_until_yield,
      simp add: get_session_for_queue_def close_session_last split: sum.splits)

text \<open>
  C6. For either provider: running it to its \<^verbatim>\<open>yield\<close> creates exactly one
  session, open and bound to the engine of the session maker; however the generator
  is resumed (normally, by an exception thrown into it, or by closing it) that session
  is closed afterwards; and a whole scope around any body, returning or raising,
  leaves the registry with that one new session, closed, and passes the body's result
  or exception on. Both providers call the same maker, so both bind to its engine.
\<close>

theorem session_provider_scope:
  "gen = get_session maker \<or> gen = get_session_for_queue maker \<Longrightarrow>
     until_yield gen w =
       (\<lparr>resource = resource w @ [\<lparr>session_bind = bind maker, session_closed = False\<rparr>],
         logged = logged w @
           [\<lparr>level = DEBUG, msg = ''Creating new database session'', args = []\<rparr>,
            \<lparr>level = DEBUG, msg = ''Yielding database session'', args = []\<rparr>]\<rparr>,
        length (resource w))
     \<and> (\<forall>r w'. length (resource w) < length (resource w') \<longrightarrow>
           session_closed (resource (fst (after_yield gen (length (resource w)) r w')) ! length (resource w)))
     \<and> resource (fst (scoped gen body w)) = resource w @ [\<lparr>session_bind = bind maker, session_closed = True\<rparr>]
     \<and> snd (scoped gen body w) = (case body (length (resource w)) of Inl exc \<Rightarrow> Inl exc | Inr v \<Rightarrow> Inr (Some v))"
proof -
  assume g: "gen = get_session maker \<or> gen = get_session_for_queue maker"
  have u: "until_yield gen w =
       (\<lparr>resource = resource w @ [\<lparr>session_bind = bind maker, session_closed = False\<rparr>],
         logged = logged w @
           [\<lparr>level = DEBUG, msg = ''Creating new database session'', args = []\<rparr>,
            \<lparr>level = DEBUG, msg = ''Yielding database session'', args = []\<rparr>]\<rparr>,
        length (resource w))"
  proof (rule disjE [OF g])
    assume "gen = get_session maker"
    then show ?thesis by (simp only: get_session_until_yield)
  next
    assume "gen = get_session_for_queue maker"
    then show ?thesis by (simp only: get_session_for_queue_until_yield)
  qed
  have c: "\<forall>r w'. length (resource w) < length (resource w') \<longrightarrow>
           session_closed (resource (fst (after_yield gen (length (resource w)) r w')) ! length (resource w))"
    by (simp add: after_yield_closes(1) [OF g] close_session_closed)
  have s: "scoped gen body w =
     (\<lparr>resource = resource w @ [\<lparr>session_bind = bind maker, session_closed = True\<rparr>],
       logged = logged w @
         [\<lparr>level = DEBUG, msg = ''Creating new database session'', args = []\<rparr>,
          \<lparr>level = DEBUG, msg = ''Yielding database session'', args = []\<rparr>]\<rparr>,
      case body (length (resource w)) of Inl exc \<Rightarrow> Inl exc | Inr v \<Rightarrow> Inr (Some v))"
  proof (rule disjE [OF g])
    assume "gen = get_session maker"
    then show ?thesis by (simp only: scoped_get_session)
  next
    assume "gen = get_session_for_queue maker"
    then show ?thesis by (simp only: scoped_get_session_for_queue)
  qed
  have s1: "resource (fst (scoped gen body w)) = resource w @ [\<lparr>session_bind = bind maker, session_closed = True\<rparr>]"
    by (simp add: s)
  have s2: "snd (scoped gen body w) = (case body (length (resource w)) of Inl exc \<Rightarrow> Inl exc | Inr v \<Rightarrow> Inr (Some v))"
    by (simp add: s)
  show ?thesis
    by (intro conjI, rule u, rule c, rule s1, rule s2)
qed

text \<open>
  In the module both providers are given \<^verbatim>\<open>async_session\<close>, whose engine is the
  module's: a job that raises inside its scope and a request that returns each leave
  one closed session on that engine.
\<close>

theorem session_provider_scope_witness:
  "resource (fst (scoped (get_session_for_queue (async_sessionmaker (\<lparr>url = ''postgresql+asyncpg://u:p@h:5432/d'', echo = True, future = True\<rparr>) False))
       (\<lambda>session. (Inl (Exception ''RuntimeError'' ''job failed'') :: py_exception + unit))
       \<lparr>resource = [], logged = []\<rparr>))
     = [\<lparr>session_bind = \<lparr>url = ''postgresql+asyncpg://u:p@h:5432/d'', echo = True, future = True\<rparr>, session_closed = True\<rparr>]
   \<and> resource (fst (scoped (get_session (async_sessionmaker (\<lparr>url = ''postgresql+asyncpg://u:p@h:5432/d'', echo = True, future = True\<rparr>) False))
       (\<lambda>session. (Inr session :: py_exception + nat))
       \<lparr>resource = [], logged = []\<rparr>))
     = [\<lparr>session_bind = \<lparr>url = ''postgresql+asyncpg://u:p@h:5432/d'', echo = True, future = True\<rparr>, session_closed = True\<rparr>]"
proof -
  let ?mk = "async_sessionmaker (\<lparr>url = ''postgresql+asyncpg://u:p@h:5432/d'', echo = True, future = True\<rparr>) False"
  have q: "get_session_for_queue ?mk = get_session ?mk \<or> get_session_for_queue ?mk = get_session_for_queue ?mk"
    by simp
  have p: "get_session ?mk = get_session ?mk \<or> get_session ?mk = get_session_for_queue ?mk"
    by simp
  from session_provider_scope [OF q, where w = "\<lparr>resource = [], logged = []\<rparr>"
      and body = "\<lambda>session. (Inl (Exception ''RuntimeError'' ''job failed'') :: py_exception + unit)"]
    session_provider_scope [OF p, where w = "\<lparr>resource = [], logged = []\<rparr>"
      and body = "\<lambda>session. (Inr session :: py_exception + nat)"]
  show ?thesis by (simp add: async_sessionmaker_def)
qed

section \<open>Properties of app/app\_factory.py\<close>

lemma lifespan_startup_ok:
  assumes "database_up sv" and "\<not> running (sched sv)" and "pending_jobs (sched sv) = []"
    and "''DailyCEMPADataDownload'' \<notin> set (map job_id (stored_jobs (sched sv)))"
  shows "lifespan_startup sv =
     (sv\<lparr>tables_exist := True, engine_disposed := False,
         sched := \<lparr>pending_jobs = [],
                   stored_jobs = stored_jobs (sched sv) @
                     [\<lparr>func = DownloadCEMPAData_job, trigger = \<lparr>hour = 3, minute = 30\<rparr>,
                       job_id = ''DailyCEMPADataDownload''\<rparr>],
                   running = True\<rparr>,
         calls := calls sv @
           [Create_all,
            Add_job \<lparr>func = DownloadCEMPAData_job, trigger = \<lparr>hour = 3, minute = 30\<rparr>,
                     job_id = ''DailyCEMPADataDownload''\<rparr>,
            Scheduler_start]\<rparr>, None)"
  using assms
  by (simp add: lifespan_startup_def create_all_def add_job_def scheduler_start_def
      real_add_job_def Let_def)

lemma lifespan_shutdown_ok:
  assumes "running (sched sv)"
  shows "lifespan_shutdown sv =
     (sv\<lparr>sched := (sched sv)\<lparr>stored_jobs := [], running := False\<rparr>,
         engine_disposed := True,
         calls := calls sv @ [Scheduler_shutdown False, Engine_dispose]\<rparr>, None)"
  using assms
  by (simp add: lifespan_shutdown_def scheduler_shutdown_def Let_def)

lemma add_pending_holds:
  "add_pending js store = Inr store' \<Longrightarrow> set store' = set store \<union> set js"
proof (induction js arbitrary: store)
  case Nil
  then show ?case by simp
next
  case (Cons j js)
  from Cons.prems have n: "job_id j \<notin> set (map job_id store)"
    and r: "add_pending js (store @ [j]) = Inr store'"
    by (auto simp: real_add_job_def split: if_splits)
  from Cons.IH [OF r] show ?case by auto
qed

lemma lifespan_startup_returns:
  assumes "snd (lifespan_startup sv) = None"
  shows "calls (fst (lifespan_startup sv)) = calls sv @
           [Create_all,
            Add_job \<lparr>func = DownloadCEMPAData_job, trigger = \<lparr>hour = 3, minute = 30\<rparr>,
                     job_id = ''DailyCEMPADataDownload''\<rparr>,
            Scheduler_start]
     \<and> tables_exist (fst (lifespan_startup sv))
     \<and> running (sched (fst (lifespan_startup sv)))
     \<and> \<lparr>func = DownloadCEMPAData_job, trigger = \<lparr>hour = 3, minute = 30\<rparr>,
         job_id = ''DailyCEMPADataDownload''\<rparr> \<in> set (stored_jobs (sched (fst (lifespan_startup sv))))"
proof -
  let ?j = "\<lparr>func = DownloadCEMPAData_job, trigger = \<lparr>hour = 3, minute = 30\<rparr>,
             job_id = ''DailyCEMPADataDownload''\<rparr>"
  from assms have up: "database_up sv"
    by (auto simp: lifespan_startup_def create_all_def Let_def split: if_splits)
  have nr: "\<not> running (sched sv)"
  proof
    assume "running (sched sv)"
    with up have "snd (lifespan_startup sv) \<noteq> None"
      by (auto simp: lifespan_startup_def create_all_def add_job_def scheduler_start_def Let_def
          split: sum.splits)
    with assms show False by simp
  qed
  from up nr assms obtain store where
    ap: "add_pending (pending_jobs (sched sv) @ [?j]) (stored_jobs (sched sv)) = Inr store"
    by (cases "add_pending (pending_jobs (sched sv) @ [?j]) (stored_jobs (sched sv))")
       (auto simp: lifespan_startup_def create_all_def add_job_def scheduler_start_def Let_def)
  from add_pending_holds [OF ap] have "?j \<in> set store" by simp
  with up nr ap show ?thesis
    by (simp add: lifespan_startup_def create_all_def add_job_def scheduler_start_def Let_def)
qed

lemma lifespan_shutdown_returns:
  assumes "snd (lifespan_shutdown sv) = None"
  shows "calls (fst (lifespan_shutdown sv)) = calls sv @ [Scheduler_shutdown False, Engine_dispose]
     \<and> \<not> running (sched (fst (lifespan_shutdown sv)))
     \<and> stored_jobs (sched (fst (lifespan_shutdown sv))) = []
     \<and> engine_disposed (fst (lifespan_shutdown sv))"
proof -
  from assms have "running (sched sv)"
    by (auto simp: lifespan_shutdown_def scheduler_shutdown_def Let_def split: if_splits)
  then show ?thesis by (simp add: lifespan_shutdown_ok)
qed

text \<open>
  C5. Whenever the startup hook returns, it has made three calls, in this order and
  after the calls made so far: the creation of the tables, the registration of the job
  \<^verbatim>\<open>DownloadCEMPAData\<close> with the trigger of hour 3 and minute 30 under the id
  \<^verbatim>\<open>DailyCEMPADataDownload\<close>, and the start of the scheduler; afterwards the tables
  exist and the scheduler runs with that job in its store. Whenever the shutdown hook
  returns, it has made two calls, the scheduler's shutdown with \<^verbatim>\<open>wait=False\<close> and
  then the disposal of the engine; afterwards the scheduler is stopped, its store is
  empty and the engine is disposed.

  Both do return where they are meant to run. On a service whose database is up and
  whose scheduler is stopped, with no job waiting and none stored under that id (the
  service as the import leaves it is one, and so is a service after a shutdown), the
  startup hook returns, with the state written out below. On a service whose
  scheduler runs, the shutdown hook returns, with the state written out below.
\<close>

theorem lifespan_hooks:
  "(snd (lifespan_startup sv) = None \<longrightarrow>
      calls (fst (lifespan_startup sv)) = calls sv @
           [Create_all,
            Add_job \<lparr>func = DownloadCEMPAData_job, trigger = \<lparr>hour = 3, minute = 30\<rparr>,
                     job_id = ''DailyCEMPADataDownload''\<rparr>,
            Scheduler_start]
      \<and> tables_exist (fst (lifespan_startup sv))
      \<and> running (sched (fst (lifespan_startup sv)))
      \<and> \<lparr>func = DownloadCEMPAData_job, trigger = \<lparr>hour = 3, minute = 30\<rparr>,
          job_id = ''DailyCEMPADataDownload''\<rparr> \<in> set (stored_jobs (sched (fst (lifespan_startup sv)))))
   \<and> (snd (lifespan_shutdown sv) = None \<longrightarrow>
      calls (fst (lifespan_shutdown sv)) = calls sv @ [Scheduler_shutdown False, Engine_dispose]
      \<and> \<not> running (sched (fst (lifespan_shutdown sv)))
      \<and> stored_jobs (sched (fst (lifespan_shutdown sv))) = []
      \<and> engine_disposed (fst (lifespan_shutdown sv)))
   \<and> (database_up sv \<and> \<not> running (sched sv) \<and> pending_jobs (sched sv) = [] \<and>
       ''DailyCEMPADataDownload'' \<notin> set (map job_id (stored_jobs (sched sv))) \<longrightarrow>
      lifespan_startup sv =
        (sv\<lparr>tables_exist := True, engine_disposed := False,
            sched := \<lparr>pending_jobs = [],
                      stored_jobs = stored_jobs (sched sv) @
                        [\<lparr>func = DownloadCEMPAData_job, trigger = \<lparr>hour = 3, minute = 30\<rparr>,
                          job_id = ''DailyCEMPADataDownload''\<rparr>],
                      running = True\<rparr>,
            calls := calls sv @
              [Create_all,
               Add_job \<lparr>func = DownloadCEMPAData_job, trigger = \<lparr>hour = 3, minute = 30\<rparr>,
                        job_id = ''DailyCEMPADataDownload''\<rparr>,
               Scheduler_start]\<rparr>, None))
   \<and> (running (sched sv) \<longrightarrow>
      lifespan_shutdown sv =
        (sv\<lparr>sched := (sched sv)\<lparr>stored_jobs := [], running := False\<rparr>,
            engine_disposed := True,
            calls := calls sv @ [Scheduler_shutdown False, Engine_dispose]\<rparr>, None))"
  using lifespan_startup_returns [of sv] lifespan_shutdown_returns [of sv]
    lifespan_startup_ok [of sv] lifespan_shutdown_ok [of sv]
  by (intro conjI impI) blast+

text \<open>
  From the import on, with the database up: a startup, the shutdown after it, and a
  second startup, which finds the store empty and registers the job again.
\<close>

theorem lifespan_hooks_witness:
  "lifespan_startup (imported_service True False) =
     (\<lparr>database_up = True, tables_exist = True, engine_disposed = False,
       sched = \<lparr>pending_jobs = [],
                stored_jobs = [\<lparr>func = DownloadCEMPAData_job, trigger = \<lparr>hour = 3, minute = 30\<rparr>,
                                job_id = ''DailyCEMPADataDownload''\<rparr>],
                running = True\<rparr>,
       calls = [Create_all,
                Add_job \<lparr>func = DownloadCEMPAData_job, trigger = \<lparr>hour = 3, minute = 30\<rparr>,
                         job_id = ''DailyCEMPADataDownload''\<rparr>,
                Scheduler_start]\<rparr>, None)
   \<and> lifespan_shutdown (fst (lifespan_startup (imported_service True False))) =
     (\<lparr>database_up = True, tables_exist = True, engine_disposed = True,
       sched = \<lparr>pending_jobs = [], stored_jobs = [], running = False\<rparr>,
       calls = [Create_all,
                Add_job \<lparr>func = DownloadCEMPAData_job, trigger = \<lparr>hour = 3, minute = 30\<rparr>,
                         job_id = ''DailyCEMPADataDownload''\<rparr>,
                Scheduler_start, Scheduler_shutdown False, Engine_dispose]\<rparr>, None)
   \<and> snd (lifespan_startup (fst (lifespan_shutdown (fst (lifespan_startup (imported_service True False))))))
       = None"
proof -
  let ?j = "\<lparr>func = DownloadCEMPAData_job, trigger = \<lparr>hour = 3, minute = 30\<rparr>,
             job_id = ''DailyCEMPADataDownload''\<rparr>"
  let ?s0 = "imported_service True False"
  let ?s1 = "\<lparr>database_up = True, tables_exist = True, engine_disposed = False,
       sched = \<lparr>pending_jobs = [], stored_jobs = [?j], running = True\<rparr>,
       calls = [Create_all, Add_job ?j, Scheduler_start]\<rparr>"
  let ?s2 = "\<lparr>database_up = True, tables_exist = True, engine_disposed = True,
       sched = \<lparr>pending_jobs = [], stored_jobs = [], running = False\<rparr>,
       calls = [Create_all, Add_job ?j, Scheduler_start, Scheduler_shutdown False, Engine_dispose]\<rparr>"
  have h0: "database_up ?s0 \<and> \<not> running (sched ?s0) \<and> pending_jobs (sched ?s0) = [] \<and>
    ''DailyCEMPADataDownload'' \<notin> set (map job_id (stored_jobs (sched ?s0)))"
    by (simp add: imported_service_def AsyncIOScheduler_def)
  have a: "lifespan_startup ?s0 = (?s1, None)"
    using lifespan_hooks [of ?s0, THEN conjunct2, THEN conjunct2, THEN conjunct1, rule_format, OF h0]
    by (simp add: imported_service_def AsyncIOScheduler_def)
  have h1: "running (sched ?s1)" by simp
  have b: "lifespan_shutdown ?s1 = (?s2, None)"
    using lifespan_hooks [of ?s1, THEN conjunct2, THEN conjunct2, THEN conjunct2, rule_format, OF h1] by simp
  have h2: "database_up ?s2 \<and> \<not> running (sched ?s2) \<and> pending_jobs (sched ?s2) = [] \<and>
    ''DailyCEMPADataDownload'' \<notin> set (map job_id (stored_jobs (sched ?s2)))"
    by simp
  have c: "snd (lifespan_startup ?s2) = None"
    using lifespan_hooks [of ?s2, THEN conjunct2, THEN conjunct2, THEN conjunct1, rule_format, OF h2] by simp
  from a b c show ?thesis by simp
qed

section \<open>Properties of app/etl/extractor.py\<close>

subsection \<open>Control flow, for every implementation of the os module\<close>

lemma resource_logger_log [simp]: "resource (logger_log lvl m as w) = resource w"
  by (simp add: logger_log_def)

lemma resource_announce [simp]: "resource (announce d w) = resource w"
  by (simp add: announce_def)

lemma exc_str_raised [simp]: "exc_str (raised exc) = snd exc"
  by (simp add: exc_str_def raised_def)

lemma DownloadCEMPAData_unfold:
  "DownloadCEMPAData os (Some r) w =
     (case create_if_missing os (path_join r ''cempa'') w of
        (w1, Some exc) \<Rightarrow> (w1, Some (raised exc))
      | (w1, None) \<Rightarrow>
          (case delete_files os (path_join r ''cempa'') (announce (path_join r ''cempa'') w1) of
             (w3, Some exc) \<Rightarrow> (logger_log ERROR (''Error deleting files: '' @ snd exc) [] w3, None)
           | (w3, None) \<Rightarrow> (w3, None)))"
  by (simp add: DownloadCEMPAData_def announce_def Let_def split: prod.splits option.splits)

lemma DownloadCEMPAData_after_create:
  assumes "create_if_missing os (path_join r ''cempa'') w = (w1, None)"
  shows "DownloadCEMPAData os (Some r) w =
     (case delete_files os (path_join r ''cempa'') (announce (path_join r ''cempa'') w1) of
        (w3, Some exc) \<Rightarrow> (logger_log ERROR (''Error deleting files: '' @ snd exc) [] w3, None)
      | (w3, None) \<Rightarrow> (w3, None))"
  by (simp add: DownloadCEMPAData_unfold assms split: prod.splits option.splits)

lemma DownloadCEMPAData_no_raise:
  assumes "create_if_missing os (path_join r ''cempa'') w = (w1, None)"
  shows "snd (DownloadCEMPAData os (Some r) w) = None"
  by (simp add: DownloadCEMPAData_after_create [OF assms] split: prod.splits option.splits)

lemma delete_loop_append:
  "delete_loop os d (xs @ ys) w =
     (case delete_loop os d xs w of
        (w1, Some exc) \<Rightarrow> (w1, Some exc)
      | (w1, None) \<Rightarrow> delete_loop os d ys w1)"
  by (induction xs arbitrary: w) (simp_all add: Let_def split: prod.splits option.splits)

lemma delete_loop_stops:
  assumes "delete_loop os d before w = (w2, None)"
    and "path_isfile os (resource w2) (path_join d filename)"
    and "remove os (resource w2) (path_join d filename) = (f, Some exc)"
  shows "delete_loop os d (before @ filename # after) w = (w2\<lparr>resource := f\<rparr>, Some exc)"
  using assms by (simp add: delete_loop_append)

text \<open>
  C3. Once the directory is there (it existed, or \<^verbatim>\<open>makedirs\<close> returned), no
  exception leaves the function. When the listing raises \<open>exc\<close>, or the listing
  returns and the loop over it raises \<open>exc\<close> (from a \<^verbatim>\<open>remove\<close>), the function
  returns normally after one \<^verbatim>\<open>ERROR\<close> record with the text of \<open>exc\<close>, in the
  state the failure left.
\<close>

theorem cleanup_failure_contained:
  "create_if_missing os (path_join r ''cempa'') w = (w1, None) \<Longrightarrow>
     snd (DownloadCEMPAData os (Some r) w) = None
     \<and> (\<forall>exc. listdir os (resource w1) (path_join r ''cempa'') = Inl exc \<longrightarrow>
          DownloadCEMPAData os (Some r) w =
            (logger_log ERROR (''Error deleting files: '' @ snd exc) []
               (announce (path_join r ''cempa'') w1), None))
     \<and> (\<forall>names w3 exc.
          listdir os (resource w1) (path_join r ''cempa'') = Inr names \<and>
          delete_loop os (path_join r ''cempa'') names (announce (path_join r ''cempa'') w1) = (w3, Some exc) \<longrightarrow>
          DownloadCEMPAData os (Some r) w =
            (logger_log ERROR (''Error deleting files: '' @ snd exc) [] w3, None))"
proof -
  assume c: "create_if_missing os (path_join r ''cempa'') w = (w1, None)"
  have a: "snd (DownloadCEMPAData os (Some r) w) = None"
    by (rule DownloadCEMPAData_no_raise [OF c])
  have b: "\<forall>exc. listdir os (resource w1) (path_join r ''cempa'') = Inl exc \<longrightarrow>
          DownloadCEMPAData os (Some r) w =
            (logger_log ERROR (''Error deleting files: '' @ snd exc) []
               (announce (path_join r ''cempa'') w1), None)"
    by (simp add: DownloadCEMPAData_after_create [OF c] delete_files_def)
  have d: "\<forall>names w3 exc.
          listdir os (resource w1) (path_join r ''cempa'') = Inr names \<and>
          delete_loop os (path_join r ''cempa'') names (announce (path_join r ''cempa'') w1) = (w3, Some exc) \<longrightarrow>
          DownloadCEMPAData os (Some r) w =
            (logger_log ERROR (''Error deleting files: '' @ snd exc) [] w3, None)"
    by (simp add: DownloadCEMPAData_after_create [OF c] delete_files_def)
  show ?thesis by (intro conjI, rule a, rule b, rule d)
qed

text \<open>
  C9. Let the listing be \<open>before @ filename # after\<close>, let the loop get through
  \<open>before\<close> without an exception, and let the removal of \<open>filename\<close> raise
  \<open>exc\<close>. Then the loop ends there: it gives the same result as on the listing cut
  after \<open>filename\<close>, whatever \<open>after\<close> holds, so no entry of \<open>after\<close> is
  tested or removed; and the function logs \<open>exc\<close> and returns normally with the
  filesystem \<open>f\<close> that the failing call left.
\<close>

theorem delete_failure_ends_cleanup:
  "create_if_missing os (path_join r ''cempa'') w = (w1, None) \<Longrightarrow>
   listdir os (resource w1) (path_join r ''cempa'') = Inr (before @ filename # after) \<Longrightarrow>
   delete_loop os (path_join r ''cempa'') before (announce (path_join r ''cempa'') w1) = (w2, None) \<Longrightarrow>
   path_isfile os (resource w2) (path_join (path_join r ''cempa'') filename) \<Longrightarrow>
   remove os (resource w2) (path_join (path_join r ''cempa'') filename) = (f, Some exc) \<Longrightarrow>
     delete_loop os (path_join r ''cempa'') (before @ filename # after) (announce (path_join r ''cempa'') w1)
       = delete_loop os (path_join r ''cempa'') (before @ [filename]) (announce (path_join r ''cempa'') w1)
     \<and> DownloadCEMPAData os (Some r) w =
         (logger_log ERROR (''Error deleting files: '' @ snd exc) [] (w2\<lparr>resource := f\<rparr>), None)"
proof -
  let ?d = "path_join r ''cempa''"
  assume c: "create_if_missing os ?d w = (w1, None)"
    and l: "listdir os (resource w1) ?d = Inr (before @ filename # after)"
    and b: "delete_loop os ?d before (announce ?d w1) = (w2, None)"
    and i: "path_isfile os (resource w2) (path_join ?d filename)"
    and x: "remove os (resource w2) (path_join ?d filename) = (f, Some exc)"
  have s: "\<And>rest. delete_loop os ?d (before @ filename # rest) (announce ?d w1) = (w2\<lparr>resource := f\<rparr>, Some exc)"
    by (rule delete_loop_stops [OF b i x])
  have "delete_loop os ?d (before @ filename # after) (announce ?d w1)
       = delete_loop os ?d (before @ [filename]) (announce ?d w1)"
    by (simp only: s)
  moreover have "DownloadCEMPAData os (Some r) w =
         (logger_log ERROR (''Error deleting files: '' @ snd exc) [] (w2\<lparr>resource := f\<rparr>), None)"
    by (simp add: DownloadCEMPAData_after_create [OF c] delete_files_def l s)
  ultimately show ?thesis by (rule conjI)
qed

text \<open>
  C10. With \<^verbatim>\<open>ROOT_DIR\<close> unset the call raises the \<^verbatim>\<open>TypeError\<close> of
  \<^verbatim>\<open>os.path.join\<close> and leaves the state as it was: nothing is created or removed,
  nothing is logged, and no function of the os module decides the outcome. The
  exception leaves \<^verbatim>\<open>run_download\<close> as well.
\<close>

theorem unset_root_dir_raises:
  "env ''ROOT_DIR'' = None \<Longrightarrow>
     DownloadCEMPAData os (ROOT_DIR env) w =
       (w, Some (TypeError ''expected str, bytes or os.PathLike object, not NoneType''))
     \<and> run_download os (ROOT_DIR env) w =
       (w, Some (TypeError ''expected str, bytes or os.PathLike object, not NoneType''))"
  by (simp add: ROOT_DIR_def DownloadCEMPAData_def run_download_def)

theorem unset_root_dir_raises_witness:
  "DownloadCEMPAData posix (ROOT_DIR [''DATABASE_URL'' \<mapsto> ''sqlite://'']) \<lparr>resource = workspace_fs, logged = []\<rparr> =
       (\<lparr>resource = workspace_fs, logged = []\<rparr>,
        Some (TypeError ''expected str, bytes or os.PathLike object, not NoneType''))"
proof -
  have h: "[''DATABASE_URL'' \<mapsto> ''sqlite://''] ''ROOT_DIR'' = None" by simp
  from unset_root_dir_raises [where env = "[''DATABASE_URL'' \<mapsto> ''sqlite://'']", OF h, THEN conjunct1]
  show ?thesis .
qed

text \<open>
  The listing of \<^verbatim>\<open>/data/cempa\<close> is refused: the job logs the error, deletes
  nothing and returns.
\<close>

theorem cleanup_failure_contained_witness:
  "DownloadCEMPAData posix (Some ''/data'') \<lparr>resource = unlistable_fs, logged = []\<rparr> =
     (\<lparr>resource = unlistable_fs,
       logged = [\<lparr>level = DEBUG, msg = ''Deleting all files in directory: /data/cempa'', args = []\<rparr>,
                 \<lparr>level = ERROR, msg = ''Error deleting files: [Errno 13] Permission denied: /data/cempa'',
                   args = []\<rparr>]\<rparr>,
      None)"
proof -
  let ?w = "\<lparr>resource = unlistable_fs, logged = []\<rparr>"
  have d: "path_join ''/data'' ''cempa'' = ''/data/cempa''"
    by (simp add: path_join_def)
  have c: "create_if_missing posix (path_join ''/data'' ''cempa'') ?w = (?w, None)"
    unfolding d by code_simp
  have l: "listdir posix (resource ?w) (path_join ''/data'' ''cempa'')
      = Inl (''PermissionError'', ''[Errno 13] Permission denied: /data/cempa'')"
    unfolding d by code_simp
  from cleanup_failure_contained [OF c, THEN conjunct2, THEN conjunct1, rule_format, OF l]
  show ?thesis
    by (simp add: d announce_def logger_log_def)
qed

text \<open>
  \<^verbatim>\<open>a.tmp\<close> is removed, the removal of \<^verbatim>\<open>b.tmp\<close> is refused, and
  \<^verbatim>\<open>c.tmp\<close>, listed after it, is still there when the job returns.
\<close>

theorem delete_failure_ends_cleanup_witness:
  "DownloadCEMPAData posix (Some ''/data'') \<lparr>resource = locked_fs, logged = []\<rparr> =
     (\<lparr>resource =
         \<lparr>nodes = [([''data''], Directory),
                   ([''data'', ''cempa''], Directory),
                   ([''data'', ''cempa'', ''b.tmp''], RegularFile),
                   ([''data'', ''cempa'', ''c.tmp''], RegularFile)],
          cwd = [], denied = [[''data'', ''cempa'', ''b.tmp'']]\<rparr>,
       logged = [\<lparr>level = DEBUG, msg = ''Deleting all files in directory: /data/cempa'', args = []\<rparr>,
                 \<lparr>level = DEBUG, msg = ''Deleted file: /data/cempa/a.tmp'', args = []\<rparr>,
                 \<lparr>level = ERROR, msg = ''Error deleting files: [Errno 13] Permission denied: /data/cempa/b.tmp'',
                   args = []\<rparr>]\<rparr>,
      None)"
proof -
  let ?w = "\<lparr>resource = locked_fs, logged = []\<rparr>"
  let ?f = "\<lparr>nodes = [([''data''], Directory),
                   ([''data'', ''cempa''], Directory),
                   ([''data'', ''cempa'', ''b.tmp''], RegularFile),
                   ([''data'', ''cempa'', ''c.tmp''], RegularFile)],
          cwd = [], denied = [[''data'', ''cempa'', ''b.tmp'']]\<rparr>"
  let ?w2 = "\<lparr>resource = ?f,
       logged = [\<lparr>level = DEBUG, msg = ''Deleting all files in directory: /data/cempa'', args = []\<rparr>,
                 \<lparr>level = DEBUG, msg = ''Deleted file: /data/cempa/a.tmp'', args = []\<rparr>]\<rparr>"
  have d: "path_join ''/data'' ''cempa'' = ''/data/cempa''"
    by (simp add: path_join_def)
  have c: "create_if_missing posix (path_join ''/data'' ''cempa'') ?w = (?w, None)"
    unfolding d by code_simp
  have l: "listdir posix (resource ?w) (path_join ''/data'' ''cempa'') = Inr ([''a.tmp''] @ ''b.tmp'' # [''c.tmp''])"
    unfolding d by code_simp
  have b: "delete_loop posix (path_join ''/data'' ''cempa'') [''a.tmp''] (announce (path_join ''/data'' ''cempa'') ?w) = (?w2, None)"
    unfolding d by code_simp
  have i: "path_isfile posix (resource ?w2) (path_join (path_join ''/data'' ''cempa'') ''b.tmp'')"
    unfolding d by code_simp
  have x: "remove posix (resource ?w2) (path_join (path_join ''/data'' ''cempa'') ''b.tmp'')
      = (?f, Some (''PermissionError'', ''[Errno 13] Permission denied: /data/cempa/b.tmp''))"
    unfolding d by code_simp
  from delete_failure_ends_cleanup [OF c l b i x, THEN conjunct2]
  show ?thesis
    by (simp add: logger_log_def)
qed

subsection \<open>Running on the POSIX filesystem\<close>

lemma posix_simps [simp]:
  "path_exists posix = os_path_exists" "makedirs posix = os_makedirs" "listdir posix = os_listdir"
  "path_isfile posix = os_path_isfile" "remove posix = os_remove"
  by (simp_all add: posix_def)





subsection \<open>Path resolution\<close>

lemma node_at_root [simp]: "node_at fs [] = Some Directory"
  by (simp add: node_at_def)

lemma walk_Cons:
  "walk k fs cur (c # cs) =
     (case walk_step k fs cur c cs of None \<Rightarrow> None | Some (k', cur', cs') \<Rightarrow> walk k' fs cur' cs')"
  by (simp add: walk_step_def split: option.splits node.splits nat.splits)

declare walk.simps(2) [simp del]

lemma walk_step_induct [case_names Nil Cons]:
  assumes nil: "\<And>k fs cur. P k fs cur []"
    and cons: "\<And>k fs cur c cs. (\<And>k' cur' cs'. walk_step k fs cur c cs = Some (k', cur', cs') \<Longrightarrow> P k' fs cur' cs')
       \<Longrightarrow> P k fs cur (c # cs)"
  shows "P k fs cur cs"
proof (induction k fs cur cs rule: walk.induct)
  case (1 k fs cur)
  show ?case by (rule nil)
next
  case (2 k fs cur c cs)
  show ?case
  proof (rule cons)
    fix k' cur' cs'
    assume s: "walk_step k fs cur c cs = Some (k', cur', cs')"
    then have dir: "\<not> node_at fs cur \<noteq> Some Directory"
      by (auto simp: walk_step_def split: if_splits)
    show "P k' fs cur' cs'"
    proof (cases "c = [] \<or> c = ''.''")
      case True
      with s dir have "k' = k" "cur' = cur" "cs' = cs" by (auto simp: walk_step_def)
      with "2.IH"(1) [OF dir True] show ?thesis by simp
    next
      case nodot: False
      show ?thesis
      proof (cases "c = ''..''")
        case True
        with s dir nodot have "k' = k" "cur' = butlast cur" "cs' = cs" by (auto simp: walk_step_def)
        with "2.IH"(2) [OF dir nodot True] show ?thesis by simp
      next
        case nodd: False
        from s dir nodot nodd obtain nd where nd: "node_at fs (cur @ [c]) = Some nd"
          by (cases "node_at fs (cur @ [c])") (auto simp: walk_step_def)
        show ?thesis
        proof (cases nd)
          case RegularFile
          with s dir nodot nodd nd have "k' = k" "cur' = cur @ [c]" "cs' = cs" by (auto simp: walk_step_def)
          with "2.IH"(3) [OF dir nodot nodd nd RegularFile] show ?thesis by simp
        next
          case Directory
          with s dir nodot nodd nd have "k' = k" "cur' = cur @ [c]" "cs' = cs" by (auto simp: walk_step_def)
          with "2.IH"(4) [OF dir nodot nodd nd Directory] show ?thesis by simp
        next
          case (Symlink t)
          with s dir nodot nodd nd have e: "k = Suc k'" "t \<noteq> []" "cur' = (if is_abs t then [] else cur)"
            "cs' = split_path t @ cs"
            by (auto simp: walk_step_def split: nat.splits if_splits)
          from "2.IH"(5) [OF dir nodot nodd nd Symlink e(1) e(2)] e show ?thesis by simp
        next
          case Special
          with s dir nodot nodd nd have "k' = k" "cur' = cur @ [c]" "cs' = cs" by (auto simp: walk_step_def)
          with "2.IH"(6) [OF dir nodot nodd nd Special] show ?thesis by simp
        qed
      qed
    qed
  qed
qed

lemma walk_step_more_fuel:
  "walk_step k fs cur c cs = Some (k', cur', cs') \<Longrightarrow>
   walk_step (k + j) fs cur c cs = Some (k' + j, cur', cs')"
  by (auto simp: walk_step_def split: if_splits option.splits node.splits nat.splits)

lemma walk_more_fuel:
  "walk k fs cur cs = Some q \<Longrightarrow> walk (k + j) fs cur cs = Some q"
proof (induction k fs cur cs rule: walk_step_induct)
  case (Nil k fs cur)
  then show ?case by simp
next
  case (Cons k fs cur c cs)
  from Cons.prems obtain k' cur' cs' where s: "walk_step k fs cur c cs = Some (k', cur', cs')"
    and w: "walk k' fs cur' cs' = Some q"
    by (auto simp: walk_Cons split: option.splits)
  from Cons.IH [OF s w] walk_step_more_fuel [OF s, of j] show ?case
    by (simp add: walk_Cons)
qed

lemma walk_fuel_le:
  "walk k fs cur cs = Some q \<Longrightarrow> k \<le> k' \<Longrightarrow> walk k' fs cur cs = Some q"
  using walk_more_fuel [of k fs cur cs q "k' - k"] by simp


lemma walk_step_append:
  "walk_step k fs cur c (cs @ bs) =
     (case walk_step k fs cur c cs of None \<Rightarrow> None | Some (k', cur', cs') \<Rightarrow> Some (k', cur', cs' @ bs))"
  by (auto simp: walk_step_def split: if_splits option.splits node.splits nat.splits)


lemma walk_append_join:
  "walk k fs cur as = Some m \<Longrightarrow> walk 0 fs m bs = Some q \<Longrightarrow> walk k fs cur (as @ bs) = Some q"
proof (induction k fs cur as rule: walk_step_induct)
  case (Nil k fs cur)
  then show ?case using walk_fuel_le [of 0 fs m bs q k] by simp
next
  case (Cons k fs cur c cs)
  from Cons.prems(1) obtain k' cur' cs' where s: "walk_step k fs cur c cs = Some (k', cur', cs')"
    and w: "walk k' fs cur' cs' = Some m"
    by (auto simp: walk_Cons split: option.splits)
  from Cons.IH [OF s w Cons.prems(2)] s show ?case
    by (simp add: walk_Cons walk_step_append)
qed

lemma walk_last_step:
  assumes "walk k fs cur as = Some m" and "node_at fs m = Some Directory"
    and "valid_name n" and "node_at fs (m @ [n]) = Some nd" and "\<forall>t. nd \<noteq> Symlink t"
  shows "walk k fs cur (as @ [n]) = Some (m @ [n])"
proof -
  have "walk_step 0 fs m n [] = Some (0, m @ [n], [])"
    using assms(2-5) by (cases nd) (auto simp: walk_step_def valid_name_def)
  then have "walk 0 fs m [n] = Some (m @ [n])"
    by (simp add: walk_Cons)
  with assms(1) show ?thesis by (rule walk_append_join)
qed


lemma walk_step_mono:
  "fs_le fs fs' \<Longrightarrow> walk_step k fs cur c cs = Some r \<Longrightarrow> walk_step k fs' cur c cs = Some r"
  by (auto simp: walk_step_def fs_le_def split: if_splits option.splits node.splits nat.splits)

lemma walk_mono:
  "walk k fs cur cs = Some q \<Longrightarrow> fs_le fs fs' \<Longrightarrow> walk k fs' cur cs = Some q"
proof (induction k fs cur cs rule: walk_step_induct)
  case (Nil k fs cur)
  then show ?case by simp
next
  case (Cons k fs cur c cs)
  from Cons.prems(1) obtain k' cur' cs' where s: "walk_step k fs cur c cs = Some (k', cur', cs')"
    and w: "walk k' fs cur' cs' = Some q"
    by (auto simp: walk_Cons split: option.splits)
  from Cons.IH [OF s w Cons.prems(2)] walk_step_mono [OF Cons.prems(2) s] show ?case
    by (simp add: walk_Cons)
qed

subsection \<open>Removing a node\<close>



lemma unlink_fields [simp]: "cwd (unlink x fs) = cwd fs" "denied (unlink x fs) = denied fs"
  by (simp_all add: unlink_def)







subsection \<open>Path strings\<close>

lemma split_path_not_Nil [simp]: "split_path p \<noteq> []"
  by (induction p) (auto split: list.splits)

lemma split_path_no_sep: "CHR ''/'' \<notin> set n \<Longrightarrow> split_path n = [n]"
  by (induction n) (auto split: list.splits)

lemma split_path_append_sep:
  "split_path (a @ CHR ''/'' # b) = split_path a @ split_path b"
proof (induction a)
  case Nil
  show ?case by simp
next
  case (Cons c a)
  obtain x xs where "split_path a = x # xs"
    by (cases "split_path a") simp_all
  with Cons show ?case by simp
qed









subsection \<open>The loop on the POSIX filesystem\<close>





subsection \<open>Creating the directory\<close>

declare os_makedirs.simps [simp del]

lemma map_of_snoc:
  "map_of (al @ [(k, v)]) x = (case map_of al x of Some y \<Rightarrow> Some y | None \<Rightarrow> if x = k then Some v else None)"
  by (induction al) auto

lemma split_path_no_slash: "c \<in> set (split_path p) \<Longrightarrow> CHR ''/'' \<notin> set c"
proof (induction p arbitrary: c)
  case Nil
  then show ?case by simp
next
  case (Cons a p)
  show ?case
  proof (cases "a = CHR ''/''")
    case True
    with Cons show ?thesis by auto
  next
    case False
    show ?thesis
    proof (cases "split_path p")
      case Nil
      with Cons.prems False show ?thesis by simp
    next
      case (Cons x xs)
      with Cons.prems False have "c = a # x \<or> c \<in> set xs" by simp
      moreover have "CHR ''/'' \<notin> set x" "\<And>y. y \<in> set xs \<Longrightarrow> CHR ''/'' \<notin> set y"
        using Cons.IH Cons by simp_all
      ultimately show ?thesis using False by auto
    qed
  qed
qed

lemma rstrip_empty_subset: "set (rstrip_empty cs) \<subseteq> set cs"
  using set_dropWhileD [of _ "\<lambda>c. c = []" "rev cs"] by (auto simp: rstrip_empty_def)

lemma rstrip_empty_last: "rstrip_empty cs \<noteq> [] \<Longrightarrow> last (rstrip_empty cs) \<noteq> []"
proof -
  assume a: "rstrip_empty cs \<noteq> []"
  then have d: "dropWhile (\<lambda>c. c = []) (rev cs) \<noteq> []" by (simp add: rstrip_empty_def)
  then have "hd (dropWhile (\<lambda>c. c = []) (rev cs)) \<noteq> []" by (rule hd_dropWhile)
  moreover have "last (rstrip_empty cs) = hd (dropWhile (\<lambda>c. c = []) (rev cs))"
    using d by (simp add: rstrip_empty_def last_rev)
  ultimately show ?thesis by simp
qed

lemma os_mkdir_result:
  assumes "os_mkdir fs p = (fs', e)"
  shows "e \<noteq> None \<and> fs' = fs \<or>
     (\<exists>q n. e = None \<and> p \<noteq> [] \<and> rstrip_empty (split_path p) \<noteq> [] \<and>
        n = last (rstrip_empty (split_path p)) \<and> valid_name n \<and>
        walk 40 fs (start_dir fs p) (butlast (rstrip_empty (split_path p))) = Some q \<and>
        node_at fs q = Some Directory \<and>
        node_at fs (q @ [n]) = None \<and> fs' = fs\<lparr>nodes := nodes fs @ [(q @ [n], Directory)]\<rparr>)"
proof (cases e)
  case (Some x)
  with assms have "fs' = fs"
    by (auto simp: os_mkdir_def Let_def split: option.splits if_splits)
  with Some show ?thesis by simp
next
  case None
  let ?cs = "rstrip_empty (split_path p)"
  from assms None have p: "p \<noteq> []" and cs: "?cs \<noteq> []"
    by (auto simp: os_mkdir_def Let_def split: option.splits if_splits)
  from assms None p cs obtain q where w: "walk 40 fs (start_dir fs p) (butlast ?cs) = Some q"
    by (auto simp: os_mkdir_def Let_def split: option.splits if_splits)
  from assms None p cs w have qd: "node_at fs q = Some Directory"
    and nd: "last ?cs \<noteq> ''.''" "last ?cs \<noteq> ''..''"
    and no: "node_at fs (q @ [last ?cs]) = None"
    and fs': "fs' = fs\<lparr>nodes := nodes fs @ [(q @ [last ?cs], Directory)]\<rparr>"
    by (auto simp: os_mkdir_def Let_def split: option.splits if_splits)
  have "last ?cs \<in> set (split_path p)"
    using cs rstrip_empty_subset [of "split_path p"] last_in_set [OF cs] by blast
  then have "CHR ''/'' \<notin> set (last ?cs)" by (rule split_path_no_slash)
  with nd rstrip_empty_last [OF cs] have "valid_name (last ?cs)"
    by (simp add: valid_name_def)
  with None p cs w qd no fs' show ?thesis by blast
qed

lemma node_at_added:
  "node_at (fs\<lparr>nodes := nodes fs @ [(k, v)]\<rparr>) x =
     (case node_at fs x of Some y \<Rightarrow> Some y | None \<Rightarrow> if x = k then Some v else None)"
  by (simp add: node_at_def map_of_snoc del: map_of_append)

lemma added_le: "fs_le fs (fs\<lparr>nodes := nodes fs @ [(k, v)]\<rparr>)"
  by (simp add: fs_le_def node_at_added)



lemma rstrip_empty_id: "cs \<noteq> [] \<Longrightarrow> last cs \<noteq> [] \<Longrightarrow> rstrip_empty cs = cs"
  by (cases cs rule: rev_cases) (simp_all add: rstrip_empty_def)

lemma os_mkdir_isdir:
  assumes ok: "os_mkdir fs p = (fs', None)" and l: "last (split_path p) \<noteq> []"
  shows "os_path_isdir fs' p"
proof -
  let ?cs = "split_path p"
  have ne: "?cs \<noteq> []" by (cases p) (auto split: list.splits)
  have rs: "rstrip_empty ?cs = ?cs" using l ne by (simp add: rstrip_empty_id)
  from os_mkdir_result [OF ok] rs obtain q n where
    p: "p \<noteq> []" and n: "n = last ?cs" and v: "valid_name n"
    and w: "walk 40 fs (start_dir fs p) (butlast ?cs) = Some q" and qd: "node_at fs q = Some Directory"
    and no: "node_at fs (q @ [n]) = None"
    and fs': "fs' = fs\<lparr>nodes := nodes fs @ [(q @ [n], Directory)]\<rparr>"
    by auto
  have le: "fs_le fs fs'" unfolding fs' by (rule added_le)
  have w': "walk 40 fs' (start_dir fs p) (butlast ?cs) = Some q"
    by (rule walk_mono [OF w le])
  have qd': "node_at fs' q = Some Directory"
    using qd le by (simp add: fs_le_def)
  have new: "node_at fs' (q @ [n]) = Some Directory"
    unfolding fs' using no by (simp add: node_at_added)
  have "walk 40 fs' (start_dir fs p) (butlast ?cs @ [n]) = Some (q @ [n])"
    by (rule walk_last_step [OF w' qd' v new]) simp
  moreover have "butlast ?cs @ [n] = ?cs" using n ne by simp
  moreover have "start_dir fs' p = start_dir fs p" unfolding fs' by (simp add: start_dir_def)
  ultimately have "resolve fs' p = Some (q @ [n])" using p by (simp add: resolve_def)
  with new show ?thesis by (simp add: os_path_isdir_def)
qed

lemma os_makedirs_isdir:
  assumes ok: "os_makedirs fs name = (fs', None)"
    and t: "snd (head_tail name) \<noteq> ''.''" and l: "last (split_path name) \<noteq> []"
  shows "os_path_isdir fs' name"
proof -
  from ok t have "\<exists>fsx. os_mkdir fsx name = (fs', None)"
    by (subst (asm) os_makedirs.simps) (auto split: if_splits prod.splits option.splits)
  then show ?thesis using os_mkdir_isdir [OF _ l] by blast
qed

lemma workspace_path_cases:
  "\<exists>x. path_join r ''cempa'' = x @ ''cempa'' \<and> (x = [] \<or> last x = CHR ''/'')"
proof (cases "r = [] \<or> last r = CHR ''/''")
  case True
  then show ?thesis by (auto simp: path_join_def)
next
  case False
  then have "path_join r ''cempa'' = (r @ ''/'') @ ''cempa''" by (simp add: path_join_def)
  then show ?thesis by (metis last_snoc)
qed

lemma workspace_path_tail:
  "snd (head_tail (path_join r ''cempa'')) = ''cempa'' \<and> last (split_path (path_join r ''cempa'')) = ''cempa''"
proof -
  from workspace_path_cases obtain x where d: "path_join r ''cempa'' = x @ ''cempa''"
    and x: "x = [] \<or> last x = CHR ''/''" by blast
  have tw: "takeWhile (\<lambda>c. c \<noteq> CHR ''/'') (rev x) = []"
    using x by (cases x rule: rev_cases) auto
  have "takeWhile (\<lambda>c. c \<noteq> CHR ''/'') (rev (x @ ''cempa'')) = ''apmec''"
    using tw by simp
  then have "snd (path_split (x @ ''cempa'')) = ''cempa''"
    by (simp add: path_split_def Let_def)
  then have a: "snd (head_tail (x @ ''cempa'')) = ''cempa''"
    by (auto simp: head_tail_def split: prod.splits)
  have b: "last (split_path (x @ ''cempa'')) = ''cempa''"
  proof (cases x rule: rev_cases)
    case Nil
    then show ?thesis by (simp add: split_path_no_sep)
  next
    case (snoc y c)
    with x have "x @ ''cempa'' = y @ CHR ''/'' # ''cempa''" by simp
    then show ?thesis by (simp only: split_path_append_sep) (simp add: split_path_no_sep)
  qed
  from a b d show ?thesis by simp
qed

subsection \<open>The cleanup of the workspace\<close>









end
